theory Spec2Isabelle
  imports Complex_Main
begin

chapter \<open>Exchange connectivity gateway: a shallow embedding\<close>

text \<open>
  The theory embeds the pure and state-passing parts of
  \<^verbatim>\<open>src/core/lib/rate-limit.ts\<close> and \<^verbatim>\<open>src/exchanges/lighter/gateway.ts\<close>
  (the decimal helpers at the end of that file included). Mutable fields of a class become
  a record that every method takes and returns; \<^verbatim>\<open>Date.now()\<close> is an argument
  \<open>now\<close>; a thrown \<^verbatim>\<open>Error\<close> is the left injection of a sum.
\<close>

section \<open>Rate-limit controller (rate-limit.ts)\<close>

text \<open>
  Times and intervals are JavaScript numbers holding integral milliseconds; they are
  modelled as \<^typ>\<open>int\<close>. The log handler is modelled by the list of
  \<open>(level, message key)\<close> pairs it has received, newest last; the interpolated
  arguments of the translation function are left out.
\<close>

datatype RateLimitState = Normal | Degraded | Paused

datatype RateLimitDecision = Run | Skip | PausedDecision

record RateLimitController =
  state :: RateLimitState
  pausedUntil :: "int option"
  lastCycleAt :: int
  lastRateLimitAt :: int
  pauseMs :: int
  recoveryMs :: int
  entriesSuppressed :: bool
  baseInterval :: int
  logged :: "(string \<times> string) list"

definition DEFAULT_PAUSE_MS :: int where
  "DEFAULT_PAUSE_MS = 30000"

definition DEFAULT_RECOVERY_MS :: int where
  "DEFAULT_RECOVERY_MS = 60000"

text \<open>The constructor: \<open>options?.pauseMs ?? DEFAULT_PAUSE_MS\<close> and its sibling.\<close>

definition newRateLimitController :: "int \<Rightarrow> int option \<Rightarrow> int option \<Rightarrow> RateLimitController" where
  "newRateLimitController base optPause optRecovery =
     \<lparr> state = Normal, pausedUntil = None, lastCycleAt = 0, lastRateLimitAt = 0,
       pauseMs = (case optPause of None \<Rightarrow> DEFAULT_PAUSE_MS | Some p \<Rightarrow> p),
       recoveryMs = (case optRecovery of None \<Rightarrow> DEFAULT_RECOVERY_MS | Some r \<Rightarrow> r),
       entriesSuppressed = False, baseInterval = base, logged = [] \<rparr>"

definition logLine :: "string \<Rightarrow> string \<Rightarrow> RateLimitController \<Rightarrow> RateLimitController" where
  "logLine level key rc = rc\<lparr>logged := logged rc @ [(level, key)]\<rparr>"

definition shouldBlockEntries :: "RateLimitController \<Rightarrow> bool" where
  "shouldBlockEntries rc = (entriesSuppressed rc \<or> state rc = Paused)"

definition suppressEntries :: "RateLimitController \<Rightarrow> RateLimitController" where
  "suppressEntries rc =
     (if entriesSuppressed rc then rc
      else logLine ''info'' ''rate.limit.suppress'' (rc\<lparr>entriesSuppressed := True\<rparr>))"

definition allowEntries :: "RateLimitController \<Rightarrow> RateLimitController" where
  "allowEntries rc =
     (if \<not> entriesSuppressed rc then rc
      else logLine ''info'' ''rate.limit.resumeEntries'' (rc\<lparr>entriesSuppressed := False\<rparr>))"

definition currentInterval :: "RateLimitController \<Rightarrow> int" where
  "currentInterval rc =
     (if state rc = Degraded then baseInterval rc * 2
      else if state rc = Paused then baseInterval rc * 2
      else baseInterval rc)"

text \<open>The tail of \<open>beforeCycle\<close>, after the paused branch has fallen through.\<close>

definition enforceInterval :: "int \<Rightarrow> RateLimitController \<Rightarrow> RateLimitDecision \<times> RateLimitController" where
  "enforceInterval now rc =
     (if now - lastCycleAt rc < currentInterval rc then (Skip, rc)
      else (Run, rc\<lparr>lastCycleAt := now\<rparr>))"

definition beforeCycle :: "int \<Rightarrow> RateLimitController \<Rightarrow> RateLimitDecision \<times> RateLimitController" where
  "beforeCycle now rc =
     (if state rc = Paused then
        (case pausedUntil rc of
           Some deadline \<Rightarrow>
             if now \<ge> deadline
             then enforceInterval now
                    (logLine ''info'' ''rate.limit.pausedEnd'' (rc\<lparr>state := Degraded, pausedUntil := None\<rparr>))
             else (PausedDecision, rc\<lparr>lastCycleAt := now\<rparr>)
         | None \<Rightarrow> (PausedDecision, rc\<lparr>lastCycleAt := now\<rparr>))
      else enforceInterval now rc)"

definition registerRateLimit :: "int \<Rightarrow> RateLimitController \<Rightarrow> RateLimitController" where
  "registerRateLimit now rc0 =
     (let rc = rc0\<lparr>lastRateLimitAt := now\<rparr> in
      if state rc = Normal then
        suppressEntries ((logLine ''warn'' ''rate.limit.hit'' (rc\<lparr>state := Degraded\<rparr>))\<lparr>lastCycleAt := now\<rparr>)
      else if state rc = Degraded then
        suppressEntries (logLine ''warn'' ''rate.limit.consecutive''
                           (rc\<lparr>state := Paused, pausedUntil := Some (now + pauseMs rc)\<rparr>))
      else
        suppressEntries (logLine ''warn'' ''rate.limit.still''
                           (rc\<lparr>pausedUntil := Some (now + pauseMs rc)\<rparr>)))"

definition onCycleComplete :: "int \<Rightarrow> bool \<Rightarrow> RateLimitController \<Rightarrow> RateLimitController" where
  "onCycleComplete now hadRateLimit rc0 =
     (if hadRateLimit then rc0
      else
        let rc1 =
              (if state rc0 = Degraded \<and> lastRateLimitAt rc0 > 0
                  \<and> now - lastRateLimitAt rc0 \<ge> recoveryMs rc0
               then (allowEntries (logLine ''info'' ''rate.limit.reset'' (rc0\<lparr>state := Normal\<rparr>)))
                       \<lparr>lastRateLimitAt := 0\<rparr>
               else rc0)
        in if state rc1 = Normal \<and> entriesSuppressed rc1 \<and> lastRateLimitAt rc1 = 0
           then allowEntries rc1 else rc1)"

section \<open>JavaScript values and containers\<close>

text \<open>
  The result of \<^verbatim>\<open>Number(x)\<close>: a finite binary64 value, which is a rational
  number, an infinity, or \<^verbatim>\<open>NaN\<close>. The gateway applies \<^verbatim>\<open>Number\<close> to price and size
  strings of the wire format. Conversion of a decimal literal to binary64 rounds, so the
  functions below take the conversion as an argument \<open>num\<close>, and every theorem about
  them holds for every such conversion.
\<close>

datatype jsnumber = Finite rat | PosInfinity | NegInfinity | NaN

definition isFinite :: "jsnumber \<Rightarrow> bool" where
  "isFinite n = (case n of Finite q \<Rightarrow> True | _ \<Rightarrow> False)"

text \<open>\<^verbatim>\<open>n <= 0\<close>: false for \<^verbatim>\<open>NaN\<close>.\<close>

definition leZero :: "jsnumber \<Rightarrow> bool" where
  "leZero n = (case n of Finite q \<Rightarrow> q \<le> 0 | NegInfinity \<Rightarrow> True | _ \<Rightarrow> False)"

text \<open>\<^verbatim>\<open>n === 0\<close>.\<close>

definition isZero :: "jsnumber \<Rightarrow> bool" where
  "isZero n = (case n of Finite q \<Rightarrow> q = 0 | _ \<Rightarrow> False)"

text \<open>\<^verbatim>\<open>Math.abs(n) < bound\<close> for a finite bound: false for \<^verbatim>\<open>NaN\<close> and the infinities.\<close>

definition absLess :: "jsnumber \<Rightarrow> rat \<Rightarrow> bool" where
  "absLess n bound = (case n of Finite q \<Rightarrow> \<bar>q\<bar> < bound | _ \<Rightarrow> False)"

text \<open>
  A JavaScript \<^verbatim>\<open>Map\<close> iterates in insertion order: \<^verbatim>\<open>set\<close> on a present key
  keeps its place, \<^verbatim>\<open>set\<close> on a new key appends, \<^verbatim>\<open>delete\<close> removes the entry (a
  later \<^verbatim>\<open>set\<close> of the same key appends again). It is modelled by the list of its
  entries.
\<close>

fun mapSet :: "'k \<Rightarrow> 'v \<Rightarrow> ('k \<times> 'v) list \<Rightarrow> ('k \<times> 'v) list" where
  "mapSet k v [] = [(k, v)]"
| "mapSet k v (e # m) = (if fst e = k then (k, v) # m else e # mapSet k v m)"

definition mapDelete :: "'k \<Rightarrow> ('k \<times> 'v) list \<Rightarrow> ('k \<times> 'v) list" where
  "mapDelete k m = filter (\<lambda>e. fst e \<noteq> k) m"

definition mapValues :: "('k \<times> 'v) list \<Rightarrow> 'v list" where
  "mapValues m = map snd m"

text \<open>
  \<^verbatim>\<open>Array.prototype.sort\<close> with a comparator is a stable sort. It is modelled by
  insertion from the right, which is stable: an element goes before the first element it
  does not compare greater than. For a comparator that is a consistent ordering the result
  is the one stable sorted arrangement, whatever algorithm the engine runs. For an
  inconsistent comparator (the comparator of \<open>sortAndTrimLevels\<close> is one as soon as a
  price is not a finite number) the order of the engine's result is
  implementation-defined, and the arrangement of the model need not be the engine's: the
  result is then only known to be a permutation of the input. The theorems below that
  speak of the order assume finite prices; the others use the length or the elements
  only.
\<close>

fun insertSorted :: "('a \<Rightarrow> 'a \<Rightarrow> rat) \<Rightarrow> 'a \<Rightarrow> 'a list \<Rightarrow> 'a list" where
  "insertSorted cmp x [] = [x]"
| "insertSorted cmp x (y # ys) =
     (if cmp x y \<le> 0 then x # y # ys else y # insertSorted cmp x ys)"

definition jsSort :: "('a \<Rightarrow> 'a \<Rightarrow> rat) \<Rightarrow> 'a list \<Rightarrow> 'a list" where
  "jsSort cmp xs = foldr (insertSorted cmp) xs []"

text \<open>
  Strings are lists of 8-bit characters. Decimal digit strings are read as
  \<^verbatim>\<open>BigInt(digits)\<close> reads them, most significant digit first.
\<close>

definition isDigit :: "char \<Rightarrow> bool" where
  "isDigit c = (c \<in> set ''0123456789'')"

definition digitValue :: "char \<Rightarrow> nat" where
  "digitValue c = of_char c - 48"

definition digitsValue :: "string \<Rightarrow> nat" where
  "digitsValue ds = foldl (\<lambda>n c. 10 * n + digitValue c) 0 ds"

text \<open>
  The exact value of a plain decimal literal \<^verbatim>\<open>-?digits(.digits)?\<close> with at least one
  digit, zero for the empty string, and \<open>NaN\<close> for every other string. It agrees with
  \<^verbatim>\<open>Number\<close> on the empty string and on every such literal whose value is a binary64
  number (the integers below \<open>2^53\<close> among them); it does not model \<^verbatim>\<open>Number\<close> on
  other strings (exponents, a leading plus sign, surrounding white space). It is the
  conversion at which the examples of this theory are evaluated, and they use plain
  decimal literals only; the general theorems hold for every conversion \<open>num\<close>.
\<close>

definition decimalNumber :: "string \<Rightarrow> jsnumber" where
  "decimalNumber s =
     (let neg = (s \<noteq> [] \<and> hd s = CHR ''-'');
          u = (if neg then tl s else s);
          ip = takeWhile isDigit u;
          rest = dropWhile isDigit u;
          fp = (if rest \<noteq> [] \<and> hd rest = CHR ''.'' then tl rest else [])
      in if s = [] then Finite 0
         else if (ip = [] \<and> fp = []) \<or> (rest \<noteq> [] \<and> hd rest \<noteq> CHR ''.'')
                 \<or> \<not> list_all isDigit fp
         then NaN
         else Finite ((if neg then - 1 else 1)
                      * (of_nat (digitsValue (ip @ fp)) / 10 ^ length fp)))"

section \<open>Order-book reconciliation (gateway.ts)\<close>

record LighterOrderBookLevel =
  price :: string
  size_level :: string

text \<open>
  A level on the wire is a two-element array or an object; \<open>normalizeLevels\<close> applies
  \<^verbatim>\<open>String\<close> to both fields. A wire entry is modelled with the two strings that
  \<^verbatim>\<open>String\<close> returns for its fields.
\<close>

datatype RawLevel = ArrayEntry string string | ObjectEntry string string

datatype BookSide = Bid | Ask

record LighterOrderBookSnapshot =
  market_id :: int
  offset :: int
  bids :: "LighterOrderBookLevel list"
  asks :: "LighterOrderBookLevel list"

text \<open>
  The \<^verbatim>\<open>order_book\<close> member of a message and the message. \<open>None\<close> stands for a
  missing or null member; for \<open>ob_bids\<close> and \<open>ob_asks\<close> it also stands for a member
  that is not an array. Offsets and timestamps are integral JSON numbers.
\<close>

record OrderBookPayload =
  ob_offset :: "int option"
  ob_bids :: "RawLevel list option"
  ob_asks :: "RawLevel list option"

record OrderBookMessage =
  msg_offset :: "int option"
  msg_timestamp :: "int option"
  order_book :: "OrderBookPayload option"

text \<open>
  The fields of the gateway that the order-book handlers read and write.
  \<open>depthEvents\<close> lists the books handed to the depth listeners by \<open>emitDepth\<close>.
\<close>

record BookState =
  marketId :: "int option"
  orderBook :: "LighterOrderBookSnapshot option"
  lastOrderBookOffset :: int
  lastOrderBookTimestamp :: int
  depthEvents :: "LighterOrderBookSnapshot list"

definition initialBookState :: "int option \<Rightarrow> BookState" where
  "initialBookState m =
     \<lparr> marketId = m, orderBook = None, lastOrderBookOffset = 0,
       lastOrderBookTimestamp = 0, depthEvents = [] \<rparr>"

text \<open>
  \<open>mergeLevels\<close> fills a \<^verbatim>\<open>Map\<close> from price string to size string in two loops,
  the first over the existing levels and the second over the updates, and returns its
  entries as levels.
\<close>

definition loadLevels ::
  "(string \<times> string) list \<Rightarrow> LighterOrderBookLevel list \<Rightarrow> (string \<times> string) list" where
  "loadLevels m existing = foldl (\<lambda>m level. mapSet (price level) (size_level level) m) m existing"

definition applyUpdates ::
  "(string \<Rightarrow> jsnumber) \<Rightarrow> (string \<times> string) list \<Rightarrow> LighterOrderBookLevel list
     \<Rightarrow> (string \<times> string) list" where
  "applyUpdates num m updates =
     foldl (\<lambda>m update.
              if leZero (num (size_level update)) then mapDelete (price update) m
              else mapSet (price update) (size_level update) m) m updates"

definition entryLevel :: "string \<times> string \<Rightarrow> LighterOrderBookLevel" where
  "entryLevel e = \<lparr> price = fst e, size_level = snd e \<rparr>"

definition mergeLevels ::
  "(string \<Rightarrow> jsnumber) \<Rightarrow> LighterOrderBookLevel list \<Rightarrow> LighterOrderBookLevel list
     \<Rightarrow> LighterOrderBookLevel list" where
  "mergeLevels num existing updates =
     map entryLevel (applyUpdates num (loadLevels [] existing) updates)"

text \<open>
  The filter of \<open>normalizeLevels\<close> tests the two strings against null; \<^verbatim>\<open>String\<close>
  never returns null, so the test is true of every entry.
\<close>

definition normalizeLevels :: "RawLevel list \<Rightarrow> LighterOrderBookLevel list" where
  "normalizeLevels raw =
     filter (\<lambda>lvl. True)
       (map (\<lambda>entry. case entry of
                ArrayEntry p s \<Rightarrow> \<lparr> price = p, size_level = s \<rparr>
              | ObjectEntry p s \<Rightarrow> \<lparr> price = p, size_level = s \<rparr>) raw)"

text \<open>
  The comparator of \<open>sortAndTrimLevels\<close>. For finite prices it returns \<^verbatim>\<open>pb - pa\<close> or
  \<^verbatim>\<open>pa - pb\<close>; a binary64 difference of finite values has the sign of the exact
  difference, which is what the model returns.
\<close>

definition comparePrice ::
  "(string \<Rightarrow> jsnumber) \<Rightarrow> BookSide \<Rightarrow> LighterOrderBookLevel \<Rightarrow> LighterOrderBookLevel \<Rightarrow> rat" where
  "comparePrice num side a b =
     (case (num (price a), num (price b)) of
        (Finite pa, Finite pb) \<Rightarrow> (if side = Bid then pb - pa else pa - pb)
      | _ \<Rightarrow> 0)"

definition DEFAULT_DEPTH_LIMIT :: int where
  "DEFAULT_DEPTH_LIMIT = 200"

definition sortAndTrimLevels ::
  "(string \<Rightarrow> jsnumber) \<Rightarrow> LighterOrderBookLevel list \<Rightarrow> BookSide \<Rightarrow> int
     \<Rightarrow> LighterOrderBookLevel list" where
  "sortAndTrimLevels num levels side limit =
     take (nat (max 1 limit)) (jsSort (comparePrice num side) levels)"

definition emitDepth :: "BookState \<Rightarrow> BookState" where
  "emitDepth st =
     (case orderBook st of
        None \<Rightarrow> st
      | Some book \<Rightarrow>
          (if marketId st = None then st else st\<lparr>depthEvents := depthEvents st @ [book]\<rparr>))"

text \<open>\<^verbatim>\<open>Number(message.offset ?? message.order_book?.offset ?? 0)\<close>.\<close>

definition incomingOffsetOf :: "OrderBookMessage \<Rightarrow> int" where
  "incomingOffsetOf message =
     (case msg_offset message of
        Some v \<Rightarrow> v
      | None \<Rightarrow>
          (case order_book message of
             None \<Rightarrow> 0
           | Some ob \<Rightarrow> (case ob_offset ob of Some v \<Rightarrow> v | None \<Rightarrow> 0)))"

text \<open>\<^verbatim>\<open>Number(message.timestamp ?? 0)\<close>.\<close>

definition incomingTsOf :: "OrderBookMessage \<Rightarrow> int" where
  "incomingTsOf message = (case msg_timestamp message of Some t \<Rightarrow> t | None \<Rightarrow> 0)"

text \<open>The two guards that open both handlers; a number is truthy when it is not zero.\<close>

definition staleOffset :: "BookState \<Rightarrow> OrderBookMessage \<Rightarrow> bool" where
  "staleOffset st message =
     (lastOrderBookOffset st \<noteq> 0 \<and> incomingOffsetOf message \<noteq> 0
      \<and> incomingOffsetOf message < lastOrderBookOffset st)"

definition duplicateOffset :: "BookState \<Rightarrow> OrderBookMessage \<Rightarrow> bool" where
  "duplicateOffset st message =
     (incomingOffsetOf message = lastOrderBookOffset st \<and> incomingTsOf message \<noteq> 0
      \<and> incomingTsOf message \<le> lastOrderBookTimestamp st)"

definition handleOrderBookSnapshot ::
  "(string \<Rightarrow> jsnumber) \<Rightarrow> int \<Rightarrow> OrderBookMessage \<Rightarrow> BookState \<Rightarrow> BookState" where
  "handleOrderBookSnapshot num now message st =
     (case order_book message of
        None \<Rightarrow> st
      | Some ob \<Rightarrow>
          if staleOffset st message then st
          else if duplicateOffset st message then st
          else
            let snapshot =
                  \<lparr> market_id = (case marketId st of Some m \<Rightarrow> m | None \<Rightarrow> 0),
                    offset = (case ob_offset ob of Some v \<Rightarrow> v | None \<Rightarrow> now),
                    bids = sortAndTrimLevels num
                             (normalizeLevels (case ob_bids ob of Some raw \<Rightarrow> raw | None \<Rightarrow> []))
                             Bid DEFAULT_DEPTH_LIMIT,
                    asks = sortAndTrimLevels num
                             (normalizeLevels (case ob_asks ob of Some raw \<Rightarrow> raw | None \<Rightarrow> []))
                             Ask DEFAULT_DEPTH_LIMIT \<rparr>
            in emitDepth
                 (st\<lparr> orderBook := Some snapshot,
                      lastOrderBookOffset := offset snapshot,
                      lastOrderBookTimestamp :=
                        (if incomingTsOf message \<noteq> 0 then incomingTsOf message else now) \<rparr>))"

text \<open>
  The merging block of \<open>handleOrderBookUpdate\<close>: the asks are merged when the update
  carries an array of asks, then the bids likewise, then the offset is taken over when
  the update has one.
\<close>

definition mergeBook ::
  "(string \<Rightarrow> jsnumber) \<Rightarrow> OrderBookPayload \<Rightarrow> LighterOrderBookSnapshot
     \<Rightarrow> LighterOrderBookSnapshot" where
  "mergeBook num update book =
     (let book1 =
            (case ob_asks update of
               Some raw \<Rightarrow>
                 book\<lparr> asks := sortAndTrimLevels num
                          (mergeLevels num (asks book) (normalizeLevels raw))
                          Ask DEFAULT_DEPTH_LIMIT \<rparr>
             | None \<Rightarrow> book);
          book2 =
            (case ob_bids update of
               Some raw \<Rightarrow>
                 book1\<lparr> bids := sortAndTrimLevels num
                           (mergeLevels num (bids book1) (normalizeLevels raw))
                           Bid DEFAULT_DEPTH_LIMIT \<rparr>
             | None \<Rightarrow> book1)
      in book2\<lparr> offset := (case ob_offset update of Some v \<Rightarrow> v | None \<Rightarrow> offset book2) \<rparr>)"

definition handleOrderBookUpdate ::
  "(string \<Rightarrow> jsnumber) \<Rightarrow> int \<Rightarrow> OrderBookMessage \<Rightarrow> BookState \<Rightarrow> BookState" where
  "handleOrderBookUpdate num now message st =
     (case orderBook st of
        None \<Rightarrow> st
      | Some book \<Rightarrow>
          if staleOffset st message then st
          else if duplicateOffset st message then st
          else
            (case order_book message of
               None \<Rightarrow> st
             | Some update \<Rightarrow>
                 let merged = mergeBook num update book
                 in emitDepth
                      (st\<lparr> orderBook := Some merged,
                           lastOrderBookOffset := offset merged,
                           lastOrderBookTimestamp :=
                             (if incomingTsOf message \<noteq> 0 then incomingTsOf message
                              else now) \<rparr>)))"

text \<open>The dispatch of \<open>handleMessage\<close> on the two order-book message types.\<close>

datatype BookEvent = SubscribedOrderBook OrderBookMessage | UpdateOrderBook OrderBookMessage

fun handleBookEvent :: "(string \<Rightarrow> jsnumber) \<Rightarrow> int \<times> BookEvent \<Rightarrow> BookState \<Rightarrow> BookState" where
  "handleBookEvent num (now, SubscribedOrderBook m) st = handleOrderBookSnapshot num now m st"
| "handleBookEvent num (now, UpdateOrderBook m) st = handleOrderBookUpdate num now m st"

text \<open>A run of the gateway over a sequence of order-book messages, each with its clock reading.\<close>

definition runBook :: "(string \<Rightarrow> jsnumber) \<Rightarrow> (int \<times> BookEvent) list \<Rightarrow> BookState \<Rightarrow> BookState" where
  "runBook num events st = fold (handleBookEvent num) events st"

text \<open>The depth bound on the stored book.\<close>

definition depthBounded :: "BookState \<Rightarrow> bool" where
  "depthBounded st =
     (case orderBook st of
        None \<Rightarrow> True
      | Some book \<Rightarrow> length (bids book) \<le> 200 \<and> length (asks book) \<le> 200)"

text \<open>
  Example messages: a snapshot at offset 5 and time 1000; a delta that carries offset 0
  and removes the bid at 100; a delta at offset 5 with no timestamp that removes the
  same bid.
\<close>

definition exampleSnapshot :: OrderBookMessage where
  "exampleSnapshot =
     \<lparr> msg_offset = Some 5, msg_timestamp = Some 1000,
       order_book = Some \<lparr> ob_offset = Some 5,
                           ob_bids = Some [ArrayEntry ''100'' ''1''],
                           ob_asks = Some [ArrayEntry ''101'' ''2''] \<rparr> \<rparr>"

definition exampleDeltaOffsetZero :: OrderBookMessage where
  "exampleDeltaOffsetZero =
     \<lparr> msg_offset = Some 0, msg_timestamp = Some 2000,
       order_book = Some \<lparr> ob_offset = Some 0,
                           ob_bids = Some [ArrayEntry ''100'' ''0''],
                           ob_asks = None \<rparr> \<rparr>"

definition exampleDeltaNoTimestamp :: OrderBookMessage where
  "exampleDeltaNoTimestamp =
     \<lparr> msg_offset = Some 5, msg_timestamp = None,
       order_book = Some \<lparr> ob_offset = Some 5,
                           ob_bids = Some [ArrayEntry ''100'' ''0''],
                           ob_asks = None \<rparr> \<rparr>"

definition exampleDeltaStale :: OrderBookMessage where
  "exampleDeltaStale =
     \<lparr> msg_offset = Some 4, msg_timestamp = Some 2000,
       order_book = Some \<lparr> ob_offset = Some 4,
                           ob_bids = Some [ArrayEntry ''100'' ''0''],
                           ob_asks = None \<rparr> \<rparr>"

definition exampleDeltaDuplicate :: OrderBookMessage where
  "exampleDeltaDuplicate =
     \<lparr> msg_offset = Some 5, msg_timestamp = Some 1000,
       order_book = Some \<lparr> ob_offset = Some 5,
                           ob_bids = Some [ArrayEntry ''100'' ''0''],
                           ob_asks = None \<rparr> \<rparr>"

definition exampleBookState :: BookState where
  "exampleBookState =
     runBook decimalNumber [(1000, SubscribedOrderBook exampleSnapshot)] (initialBookState (Some 1))"


definition exampleDeltaTies :: OrderBookMessage where
  "exampleDeltaTies =
     \<lparr> msg_offset = None, msg_timestamp = None,
       order_book = Some \<lparr> ob_offset = None,
                           ob_bids = Some [ArrayEntry ''1.0'' ''0'', ArrayEntry ''1.0'' ''5'',
                                           ArrayEntry ''1.00'' ''7''],
                           ob_asks = None \<rparr> \<rparr>"


text \<open>
  A snapshot with three bids and two asks, the state after it, and a delta without
  offset and timestamp (so it is accepted every time) that removes the bid at 99, sets a
  bid at 97 twice, replaces the bid at 100, removes the ask at 101 and adds one at 103.
\<close>

definition exampleSnapshotDeep :: OrderBookMessage where
  "exampleSnapshotDeep =
     \<lparr> msg_offset = Some 5, msg_timestamp = Some 1000,
       order_book = Some \<lparr> ob_offset = Some 5,
                           ob_bids = Some [ArrayEntry ''99'' ''2'', ArrayEntry ''100'' ''1'',
                                           ArrayEntry ''98'' ''3''],
                           ob_asks = Some [ArrayEntry ''102'' ''1'', ArrayEntry ''101'' ''2''] \<rparr> \<rparr>"

definition exampleDeepState :: BookState where
  "exampleDeepState =
     runBook decimalNumber [(1000, SubscribedOrderBook exampleSnapshotDeep)] (initialBookState (Some 1))"

definition exampleDeltaMixed :: OrderBookMessage where
  "exampleDeltaMixed =
     \<lparr> msg_offset = None, msg_timestamp = None,
       order_book = Some \<lparr> ob_offset = None,
                           ob_bids = Some [ArrayEntry ''99'' ''0'', ArrayEntry ''97'' ''4'',
                                           ArrayEntry ''100'' ''5'', ArrayEntry ''97'' ''6''],
                           ob_asks = Some [ArrayEntry ''101'' ''0'', ArrayEntry ''103'' ''1''] \<rparr> \<rparr>"
section \<open>Account and order reconciliation (gateway.ts)\<close>

subsection \<open>Positions\<close>

text \<open>
  The handlers read three members of a position, each through \<^verbatim>\<open>Number\<close>:
  \<^verbatim>\<open>Number(p.market_id)\<close>, \<^verbatim>\<open>Number(p.sign ?? 0)\<close> and \<^verbatim>\<open>Number(p.position ?? 0)\<close>.
  A position is modelled by these three numbers; its other members are carried along
  unread and are left out.
\<close>

record LighterPosition =
  pos_market_id :: jsnumber
  pos_sign :: jsnumber
  pos_position :: jsnumber

text \<open>The binary64 value of the literal \<^verbatim>\<open>1e-12\<close>, which is \<open>4951760157141521 / 2^92\<close>.\<close>

definition POSITION_EPSILON :: rat where
  "POSITION_EPSILON = 4951760157141521 / 2 ^ 92"

text \<open>\<^verbatim>\<open>sign === 0 || Math.abs(size) < 1e-12\<close>.\<close>

definition shouldRemove :: "LighterPosition \<Rightarrow> bool" where
  "shouldRemove p = (isZero (pos_sign p) \<or> absLess (pos_position p) POSITION_EPSILON)"

text \<open>
  \<open>hasAccountDetails\<close> says whether \<^verbatim>\<open>this.accountDetails\<close> is set; \<open>accountEvents\<close>
  lists the position sets handed to the account listeners by \<open>emitAccount\<close>.
\<close>

record AccountState =
  positions :: "LighterPosition list"
  hasAccountDetails :: bool
  accountEvents :: "LighterPosition list list"

definition initialAccountState :: AccountState where
  "initialAccountState = \<lparr> positions = [], hasAccountDetails = False, accountEvents = [] \<rparr>"

definition emitAccount :: "AccountState \<Rightarrow> AccountState" where
  "emitAccount st =
     (if \<not> hasAccountDetails st then st
      else st\<lparr>accountEvents := accountEvents st @ [positions st]\<rparr>)"

text \<open>The two loops of \<open>handleAccountAll\<close> over a \<^verbatim>\<open>Map\<close> from market id to position.\<close>

definition indexPositions ::
  "(rat \<times> LighterPosition) list \<Rightarrow> LighterPosition list \<Rightarrow> (rat \<times> LighterPosition) list" where
  "indexPositions m ps =
     foldl (\<lambda>m p. case pos_market_id p of Finite mid \<Rightarrow> mapSet mid p m | _ \<Rightarrow> m) m ps"

definition mergePositions ::
  "(rat \<times> LighterPosition) list \<Rightarrow> LighterPosition list \<Rightarrow> (rat \<times> LighterPosition) list" where
  "mergePositions m incoming =
     foldl (\<lambda>m p. case pos_market_id p of
                     Finite mid \<Rightarrow> (if shouldRemove p then mapDelete mid m else mapSet mid p m)
                   | _ \<Rightarrow> m) m incoming"

text \<open>
  The argument of \<open>handleAccountAll\<close> is the \<^verbatim>\<open>positions\<close> member of the message, as
  the list of its values: \<open>None\<close> when the message has no own property of that name,
  the empty list when the member is null.
\<close>

definition handleAccountAll :: "LighterPosition list option \<Rightarrow> AccountState \<Rightarrow> AccountState" where
  "handleAccountAll incoming st =
     (case incoming of
        None \<Rightarrow> emitAccount st
      | Some ps \<Rightarrow>
          emitAccount
            (st\<lparr>positions := mapValues (mergePositions (indexPositions [] (positions st)) ps)\<rparr>))"

text \<open>The argument of \<open>handleAccountMarket\<close> is the \<^verbatim>\<open>position\<close> member of the message.\<close>

definition handleAccountMarket :: "LighterPosition option \<Rightarrow> AccountState \<Rightarrow> AccountState" where
  "handleAccountMarket incoming st =
     (case incoming of
        None \<Rightarrow> st
      | Some position \<Rightarrow>
          (case pos_market_id position of
             Finite mid \<Rightarrow>
               if shouldRemove position then
                 emitAccount
                   (st\<lparr>positions := filter (\<lambda>p. pos_market_id p \<noteq> Finite mid) (positions st)\<rparr>)
               else
                 let updated = list_ex (\<lambda>p. pos_market_id p = Finite mid) (positions st);
                     replaced = map (\<lambda>p. if pos_market_id p = Finite mid then position else p)
                                  (positions st)
                 in emitAccount
                      (st\<lparr>positions := (if updated then replaced else replaced @ [position])\<rparr>)
           | _ \<Rightarrow> st))"

datatype AccountEvent =
  AccountAll "LighterPosition list option" | AccountMarket "LighterPosition option"

fun handleAccountEvent :: "AccountEvent \<Rightarrow> AccountState \<Rightarrow> AccountState" where
  "handleAccountEvent (AccountAll incoming) st = handleAccountAll incoming st"
| "handleAccountEvent (AccountMarket incoming) st = handleAccountMarket incoming st"

definition runAccount :: "AccountEvent list \<Rightarrow> AccountState \<Rightarrow> AccountState" where
  "runAccount events st = fold handleAccountEvent events st"

text \<open>A position whose signed size is zero: its sign or its size is the number zero.\<close>

definition zeroSignedSize :: "LighterPosition \<Rightarrow> bool" where
  "zeroSignedSize p = (isZero (pos_sign p) \<or> isZero (pos_position p))"

text \<open>
  Example positions on market 1: a long position of size 2, the update that closes it, and
  an update with sign 1 and size \<open>2^-40\<close>, which is not zero and lies below \<^verbatim>\<open>1e-12\<close>.
\<close>

definition examplePosition :: LighterPosition where
  "examplePosition = \<lparr> pos_market_id = Finite 1, pos_sign = Finite 1, pos_position = Finite 2 \<rparr>"

definition exampleClosedPosition :: LighterPosition where
  "exampleClosedPosition = \<lparr> pos_market_id = Finite 1, pos_sign = Finite 0, pos_position = Finite 0 \<rparr>"

definition exampleTinyPosition :: LighterPosition where
  "exampleTinyPosition =
     \<lparr> pos_market_id = Finite 1, pos_sign = Finite 1, pos_position = Finite (1 / 2 ^ 40) \<rparr>"

text \<open>
  A position on market 2, and the account state that holds the positions on markets 1
  and 2.
\<close>

definition exampleOtherPosition :: LighterPosition where
  "exampleOtherPosition =
     \<lparr> pos_market_id = Finite 2, pos_sign = Finite (- 1), pos_position = Finite 3 \<rparr>"

definition exampleAccountState :: AccountState where
  "exampleAccountState =
     \<lparr> positions = [examplePosition, exampleOtherPosition], hasAccountDetails = True,
       accountEvents = [] \<rparr>"

subsection \<open>Orders\<close>

text \<open>
  The members of an order that \<open>handleAccountOrders\<close> reads. An identifier member is
  \<open>None\<close> when it is null or missing and otherwise holds the string that
  \<^verbatim>\<open>String\<close> returns for it.
\<close>

record LighterOrder =
  order_index :: "string option"
  order_id :: "string option"
  client_order_index :: "string option"
  status :: "string option"

text \<open>\<^verbatim>\<open>toLowerCase\<close> on the ASCII letters.\<close>

definition lowerChar :: "char \<Rightarrow> char" where
  "lowerChar c =
     (case map_of (zip ''ABCDEFGHIJKLMNOPQRSTUVWXYZ'' ''abcdefghijklmnopqrstuvwxyz'') c of
        Some l \<Rightarrow> l
      | None \<Rightarrow> c)"

definition toLowerCase :: "string \<Rightarrow> string" where
  "toLowerCase s = map lowerChar s"

definition terminalStatuses :: "string set" where
  "terminalStatuses = {''filled'', ''canceled'', ''cancelled'', ''expired''}"

text \<open>\<^verbatim>\<open>String(order.order_index ?? order.order_id ?? order.client_order_index ?? "")\<close>.\<close>

definition orderKey :: "LighterOrder \<Rightarrow> string" where
  "orderKey order =
     (case order_index order of
        Some k \<Rightarrow> k
      | None \<Rightarrow>
          (case order_id order of
             Some k \<Rightarrow> k
           | None \<Rightarrow> (case client_order_index order of Some k \<Rightarrow> k | None \<Rightarrow> [])))"

record OrdersState =
  orderMap :: "(string \<times> LighterOrder) list"
  orders :: "LighterOrder list"
  ordersEvents :: "LighterOrder list list"

definition initialOrdersState :: OrdersState where
  "initialOrdersState = \<lparr> orderMap = [], orders = [], ordersEvents = [] \<rparr>"

text \<open>The body of the loop of \<open>handleAccountOrders\<close>.\<close>

definition applyOrder :: "(string \<times> LighterOrder) list \<Rightarrow> LighterOrder \<Rightarrow> (string \<times> LighterOrder) list" where
  "applyOrder m order =
     (let key = orderKey order;
          st = toLowerCase (case status order of Some s \<Rightarrow> s | None \<Rightarrow> [])
      in if key = [] then m
         else if st \<in> terminalStatuses then mapDelete key m
         else mapSet key order m)"

text \<open>
  The argument is the \<^verbatim>\<open>orders\<close> member of the message as the list of its values
  (\<open>None\<close> when the member is null or missing); a value that is not an array is
  \<open>None\<close>.
\<close>

definition allOrdersOf :: "LighterOrder list option list option \<Rightarrow> LighterOrder list" where
  "allOrdersOf ordersObject =
     (let buckets = (case ordersObject of Some bs \<Rightarrow> bs | None \<Rightarrow> [])
      in concat (map (\<lambda>entry. case entry of Some os \<Rightarrow> os | None \<Rightarrow> []) buckets))"

definition handleAccountOrders :: "LighterOrder list option list option \<Rightarrow> OrdersState \<Rightarrow> OrdersState" where
  "handleAccountOrders ordersObject st =
     (let m = foldl applyOrder (orderMap st) (allOrdersOf ordersObject)
      in st\<lparr> orderMap := m, orders := mapValues m,
              ordersEvents := ordersEvents st @ [mapValues m] \<rparr>)"

text \<open>Example orders with identifier 1: an open one and a rejected one.\<close>

definition exampleOpenOrder :: LighterOrder where
  "exampleOpenOrder =
     \<lparr> order_index = Some ''1'', order_id = None, client_order_index = None, status = Some ''open'' \<rparr>"

definition exampleRejectedOrder :: LighterOrder where
  "exampleRejectedOrder =
     \<lparr> order_index = Some ''1'', order_id = None, client_order_index = None,
       status = Some ''rejected'' \<rparr>"

definition exampleCanceledOrder :: LighterOrder where
  "exampleCanceledOrder =
     \<lparr> order_index = Some ''1'', order_id = None, client_order_index = None,
       status = Some ''CANCELED'' \<rparr>"

subsection \<open>Notions used to state the position properties\<close>

text \<open>Every entry of the market map sits under the market id of its position.\<close>

definition keyed :: "(rat \<times> LighterPosition) list \<Rightarrow> bool" where
  "keyed m = (\<forall>e\<in>set m. pos_market_id (snd e) = Finite (fst e))"

text \<open>No stored position is one that the handlers would remove.\<close>

definition noneRemovable :: "AccountState \<Rightarrow> bool" where
  "noneRemovable st = (\<forall>q\<in>set (positions st). \<not> shouldRemove q)"

section \<open>Signed submissions (gateway.ts)\<close>


















section \<open>Scaled-decimal arithmetic (the decimal helpers at the end of gateway.ts)\<close>

text \<open>
  The helpers take \<^verbatim>\<open>number | string | bigint\<close>. A bigint is an \<^typ>\<open>int\<close>. Of a number
  \<open>normalizeDecimalInput\<close> reads whether it is finite and its \<^verbatim>\<open>toString()\<close>, and
  \<open>scaleQuantityWithMinimum\<close> reads whether it is zero or negative; a finite number is
  modelled by the string that \<^verbatim>\<open>toString()\<close> returns for it, which determines the number:
  \<open>0.00001\<close> is \<open>NumberValue ''0.00001''\<close> and \<open>1e-7\<close> is \<open>NumberValue ''1e-7''\<close>, the
  zeros are \<open>NumberValue ''0''\<close>, and the rendering of a negative number starts with a
  minus sign.
\<close>

datatype DecimalValue =
  BigIntValue int | NumberValue string | NonFiniteNumber | StringValue string

datatype DecimalError =
  NegativeDecimals | InvalidDecimalInput | EmptyDecimalInput | InvalidDecimalFormat string
  | InvalidScaledNumber | InvalidScaledString string

record NormalizedDecimal =
  sign :: int
  digits :: string
  fractionLength :: nat

text \<open>
  \<^verbatim>\<open>String.prototype.trim\<close> strips white space and line terminators. Strings are
  modelled over the 8-bit characters, read as the code points below 256; of these the
  tab, the line feed, the vertical tab, the form feed, the carriage return, the space and
  the no-break space \<open>U+00A0\<close> are stripped.
\<close>

definition isWhiteSpace :: "char \<Rightarrow> bool" where
  "isWhiteSpace c =
     (c \<in> set [CHR 0x09, CHR 0x0A, CHR 0x0B, CHR 0x0C, CHR 0x0D, CHR '' '', CHR 0xA0])"

definition trim :: "string \<Rightarrow> string" where
  "trim s = rev (dropWhile isWhiteSpace (rev (dropWhile isWhiteSpace s)))"

text \<open>\<^verbatim>\<open>bigint.toString()\<close> of a non-negative value.\<close>

definition digitChar :: "nat \<Rightarrow> char" where
  "digitChar d = ''0123456789'' ! d"

fun digitsOf :: "nat \<Rightarrow> string" where
  "digitsOf n = (if n < 10 then [digitChar n] else digitsOf (n div 10) @ [digitChar (n mod 10)])"

text \<open>\<^verbatim>\<open>padStart\<close> and \<^verbatim>\<open>padEnd\<close> with a one-character filler.\<close>

definition padStart :: "string \<Rightarrow> nat \<Rightarrow> char \<Rightarrow> string" where
  "padStart s n c = replicate (n - length s) c @ s"

definition padEnd :: "string \<Rightarrow> nat \<Rightarrow> char \<Rightarrow> string" where
  "padEnd s n c = s @ replicate (n - length s) c"

text \<open>The test \<^verbatim>\<open>/^\d*(?:\.\d*)?$/\<close>: digits, then optionally a point and digits.\<close>

definition matchesDecimal :: "string \<Rightarrow> bool" where
  "matchesDecimal u =
     (let rest = dropWhile isDigit u
      in rest = [] \<or> (hd rest = CHR ''.'' \<and> list_all isDigit (tl rest)))"

text \<open>
  \<^verbatim>\<open>replace(/^0+(?=\d)/, "")\<close>: a leading zero goes as long as a digit follows it.
\<close>

fun stripLeadingZeros :: "string \<Rightarrow> string" where
  "stripLeadingZeros (c # d # cs) =
     (if c = CHR ''0'' \<and> isDigit d then stripLeadingZeros (d # cs) else c # d # cs)"
| "stripLeadingZeros cs = cs"

text \<open>\<^verbatim>\<open>replace(/0+$/, "")\<close>.\<close>

definition stripTrailingZeros :: "string \<Rightarrow> string" where
  "stripTrailingZeros f = rev (dropWhile (\<lambda>c. c = CHR ''0'') (rev f))"

text \<open>
  The string branch of \<open>normalizeDecimalInput\<close>. After the format test the string has at
  most one point, so \<^verbatim>\<open>split(".")\<close> yields the part before the point and, if there is a
  point, the part after it.
\<close>

definition normalizeDecimalString :: "string \<Rightarrow> DecimalError + NormalizedDecimal" where
  "normalizeDecimalString v =
     (let trimmed = trim v in
      if trimmed = [] then Inl EmptyDecimalInput
      else
        let sgn = (if hd trimmed = CHR ''-'' then - 1 else 1);
            unsigned = (if sgn = - 1 then tl trimmed else trimmed)
        in if \<not> matchesDecimal unsigned then Inl (InvalidDecimalFormat v)
           else if unsigned = [] \<or> unsigned = ''.''
           then Inr \<lparr> sign = 1, digits = ''0'', fractionLength = 0 \<rparr>
           else
             let integerPartRaw = takeWhile (\<lambda>c. c \<noteq> CHR ''.'') unsigned;
                 fractionRaw = drop 1 (dropWhile (\<lambda>c. c \<noteq> CHR ''.'') unsigned);
                 integerPart = stripLeadingZeros integerPartRaw;
                 fractionPart = stripTrailingZeros fractionRaw
             in if integerPart = [] \<and> fractionPart = []
                then Inr \<lparr> sign = 1, digits = ''0'', fractionLength = 0 \<rparr>
                else Inr \<lparr> sign = sgn,
                           digits = (if integerPart = [] then ''0'' else integerPart) @ fractionPart,
                           fractionLength = length fractionPart \<rparr>)"

definition normalizeDecimalInput :: "DecimalValue \<Rightarrow> DecimalError + NormalizedDecimal" where
  "normalizeDecimalInput v =
     (case v of
        BigIntValue b \<Rightarrow>
          Inr \<lparr> sign = (if b < 0 then - 1 else 1), digits = digitsOf (nat \<bar>b\<bar>), fractionLength = 0 \<rparr>
      | NonFiniteNumber \<Rightarrow> Inl InvalidDecimalInput
      | NumberValue rendering \<Rightarrow> normalizeDecimalString rendering
      | StringValue s \<Rightarrow> normalizeDecimalString s)"

text \<open>
  \<open>decimalToScaled\<close>. The count of decimals is a JavaScript number holding an integer.
\<close>

definition decimalToScaled :: "DecimalValue \<Rightarrow> int \<Rightarrow> DecimalError + int" where
  "decimalToScaled v decimals =
     (if decimals < 0 then Inl NegativeDecimals
      else
        case normalizeDecimalInput v of
          Inl e \<Rightarrow> Inl e
        | Inr n \<Rightarrow>
            if int (fractionLength n) > decimals then
              let trimLength = fractionLength n - nat decimals;
                  kept = take (length (digits n) - trimLength) (digits n);
                  truncated = (if kept = [] then ''0'' else kept);
                  result = int (digitsValue truncated)
              in Inr (if sign n = - 1 then - result else result)
            else
              let padded = padEnd (digits n)
                             (length (digits n) + (nat decimals - fractionLength n)) (CHR ''0'');
                  result = int (digitsValue padded)
              in Inr (if sign n = - 1 then - result else result))"

text \<open>
  What \<open>scaleQuantityWithMinimum\<close> reads of \<^verbatim>\<open>Number(value)\<close>: whether it is finite,
  zero or negative. For a string the conversion is the argument \<open>num\<close>; for a bigint the
  conversion overflows to an infinity from \<open>2^1024 - 2^970\<close> on and keeps sign and zero
  below.
\<close>

datatype NumericClass = NotFinite | Zero | Negative | Positive

definition numericClass :: "(string \<Rightarrow> jsnumber) \<Rightarrow> DecimalValue \<Rightarrow> NumericClass" where
  "numericClass num v =
     (case v of
        BigIntValue b \<Rightarrow>
          (if \<bar>b\<bar> \<ge> 2 ^ 1024 - 2 ^ 970 then NotFinite
           else if b = 0 then Zero else if b < 0 then Negative else Positive)
      | NonFiniteNumber \<Rightarrow> NotFinite
      | NumberValue rendering \<Rightarrow>
          (if rendering = ''0'' then Zero
           else if rendering \<noteq> [] \<and> hd rendering = CHR ''-'' then Negative else Positive)
      | StringValue s \<Rightarrow>
          (case num s of
             Finite q \<Rightarrow> (if q = 0 then Zero else if q < 0 then Negative else Positive)
           | _ \<Rightarrow> NotFinite))"

definition scaleQuantityWithMinimum ::
  "(string \<Rightarrow> jsnumber) \<Rightarrow> DecimalValue \<Rightarrow> int \<Rightarrow> DecimalError + int" where
  "scaleQuantityWithMinimum num v decimals =
     (case decimalToScaled v decimals of
        Inl e \<Rightarrow> Inl e
      | Inr scaled \<Rightarrow>
          if scaled \<noteq> 0 then Inr scaled
          else
            let numeric = numericClass num v
            in if numeric = NotFinite \<or> numeric = Zero then Inr scaled
               else Inr (if numeric = Negative then - 1 else 1))"

text \<open>
  The argument of \<open>scaledToDecimalString\<close>: a bigint, a number (of which the function
  reads whether it is finite and its truncation), or a string.
\<close>

datatype ScaledValue = ScaledBigInt int | ScaledNumber jsnumber | ScaledString string

text \<open>\<^verbatim>\<open>Math.trunc\<close>.\<close>

definition truncate :: "rat \<Rightarrow> int" where
  "truncate q = (if q < 0 then - \<lfloor>- q\<rfloor> else \<lfloor>q\<rfloor>)"

text \<open>The test \<^verbatim>\<open>/^[-]?\d+$/\<close> and \<^verbatim>\<open>BigInt\<close> of a string that passes it.\<close>

definition matchesInteger :: "string \<Rightarrow> bool" where
  "matchesInteger t =
     (let u = (if t \<noteq> [] \<and> hd t = CHR ''-'' then tl t else t)
      in u \<noteq> [] \<and> list_all isDigit u)"

definition signedValue :: "string \<Rightarrow> int" where
  "signedValue t =
     (if t \<noteq> [] \<and> hd t = CHR ''-'' then - int (digitsValue (tl t)) else int (digitsValue t))"

text \<open>
  \<^verbatim>\<open>replace(/\.0+$/, "")\<close>: the match is a point followed by nothing but zeros, at least
  one, up to the end. \<^verbatim>\<open>replace(/\.$/, "")\<close>: a final point goes.
\<close>

fun stripDotZeros :: "string \<Rightarrow> string" where
  "stripDotZeros [] = []"
| "stripDotZeros (c # cs) =
     (if c = CHR ''.'' \<and> cs \<noteq> [] \<and> list_all (\<lambda>z. z = CHR ''0'') cs then []
      else c # stripDotZeros cs)"

definition stripFinalDot :: "string \<Rightarrow> string" where
  "stripFinalDot s = (if s \<noteq> [] \<and> last s = CHR ''.'' then butlast s else s)"

definition scaledToDecimalString :: "ScaledValue \<Rightarrow> int \<Rightarrow> DecimalError + string" where
  "scaledToDecimalString v decimals =
     (case (case v of
              ScaledBigInt b \<Rightarrow> Inr b
            | ScaledNumber n \<Rightarrow>
                (case n of Finite q \<Rightarrow> Inr (truncate q) | _ \<Rightarrow> Inl InvalidScaledNumber)
            | ScaledString s \<Rightarrow>
                (if \<not> matchesInteger (trim s) then Inl (InvalidScaledString s)
                 else Inr (signedValue (trim s)))) of
        Inl e \<Rightarrow> Inl e
      | Inr b \<Rightarrow>
          let negative = (b < 0);
              ds = digitsOf (nat \<bar>b\<bar>)
          in if decimals = 0 then Inr (if negative then CHR ''-'' # ds else ds)
             else
               let padded = (if int (length ds) \<le> decimals
                             then padStart ds (nat (decimals + 1)) (CHR ''0'')
                             else ds);
                   splitIndex = nat (int (length padded) - decimals);
                   integerPart = (if take splitIndex padded = [] then ''0''
                                  else take splitIndex padded);
                   fractionPart = drop splitIndex padded;
                   result = stripFinalDot (stripDotZeros (integerPart @ CHR ''.'' # fractionPart))
               in Inr (if negative then CHR ''-'' # result else result))"

subsection \<open>The two readings of the round trip\<close>



definition canonicalDigits :: "string \<Rightarrow> string" where
  "canonicalDigits ds =
     (let z = dropWhile (\<lambda>c. c = CHR ''0'') ds in if z = [] then ''0'' else z)"






section \<open>Notions used to state the order-book properties\<close>

text \<open>
  The sort key of a level with a finite price: the negated price on the bid side
  (descending order), the price on the ask side.
\<close>

definition priceKey :: "(string \<Rightarrow> jsnumber) \<Rightarrow> BookSide \<Rightarrow> LighterOrderBookLevel \<Rightarrow> rat" where
  "priceKey num side l =
     (case num (price l) of
        Finite q \<Rightarrow> (if side = Bid then - q else q)
      | _ \<Rightarrow> 0)"

text \<open>Every price of the list is a finite number.\<close>

definition finitePrices :: "(string \<Rightarrow> jsnumber) \<Rightarrow> LighterOrderBookLevel list \<Rightarrow> bool" where
  "finitePrices num levels = list_all (\<lambda>l. isFinite (num (price l))) levels"

text \<open>
  Bids in descending and asks in ascending order of their numeric prices, all of them
  finite.
\<close>

definition sortedSide :: "(string \<Rightarrow> jsnumber) \<Rightarrow> BookSide \<Rightarrow> LighterOrderBookLevel list \<Rightarrow> bool" where
  "sortedSide num side levels =
     (finitePrices num levels \<and> sorted (map (priceKey num side) levels))"

text \<open>\<^verbatim>\<open>Number(size) > 0\<close>.\<close>

definition positiveSize :: "(string \<Rightarrow> jsnumber) \<Rightarrow> LighterOrderBookLevel \<Rightarrow> bool" where
  "positiveSize num l =
     (case num (size_level l) of Finite q \<Rightarrow> 0 < q | PosInfinity \<Rightarrow> True | _ \<Rightarrow> False)"

text \<open>
  The invariant of the data model on one side and on a book: sorted, no two levels with
  the same price string, every size positive.
\<close>

definition sideInvariant :: "(string \<Rightarrow> jsnumber) \<Rightarrow> BookSide \<Rightarrow> LighterOrderBookLevel list \<Rightarrow> bool" where
  "sideInvariant num side levels =
     (sortedSide num side levels \<and> distinct (map price levels)
      \<and> list_all (positiveSize num) levels)"

definition bookInvariant :: "(string \<Rightarrow> jsnumber) \<Rightarrow> BookState \<Rightarrow> bool" where
  "bookInvariant num st =
     (case orderBook st of
        None \<Rightarrow> True
      | Some book \<Rightarrow> sideInvariant num Bid (bids book) \<and> sideInvariant num Ask (asks book))"

text \<open>
  What a message has to carry for the invariant to hold after it: a snapshot side has
  finite prices, pairwise different price strings and positive sizes; a delta side has
  finite prices and sizes that are numbers.
\<close>

definition snapshotSideOk :: "(string \<Rightarrow> jsnumber) \<Rightarrow> RawLevel list option \<Rightarrow> bool" where
  "snapshotSideOk num raw =
     (case raw of
        None \<Rightarrow> True
      | Some entries \<Rightarrow>
          finitePrices num (normalizeLevels entries)
          \<and> distinct (map price (normalizeLevels entries))
          \<and> list_all (positiveSize num) (normalizeLevels entries))"

definition deltaSideOk :: "(string \<Rightarrow> jsnumber) \<Rightarrow> RawLevel list option \<Rightarrow> bool" where
  "deltaSideOk num raw =
     (case raw of
        None \<Rightarrow> True
      | Some entries \<Rightarrow>
          finitePrices num (normalizeLevels entries)
          \<and> list_all (\<lambda>l. num (size_level l) \<noteq> NaN) (normalizeLevels entries))"

fun eventOk :: "(string \<Rightarrow> jsnumber) \<Rightarrow> BookEvent \<Rightarrow> bool" where
  "eventOk num (SubscribedOrderBook m) =
     (case order_book m of
        None \<Rightarrow> True
      | Some ob \<Rightarrow> snapshotSideOk num (ob_bids ob) \<and> snapshotSideOk num (ob_asks ob))"
| "eventOk num (UpdateOrderBook m) =
     (case order_book m of
        None \<Rightarrow> True
      | Some ob \<Rightarrow> deltaSideOk num (ob_bids ob) \<and> deltaSideOk num (ob_asks ob))"

text \<open>
  Different price strings of the list denote different finite numbers.
\<close>

definition distinctNumbers :: "(string \<Rightarrow> jsnumber) \<Rightarrow> string list \<Rightarrow> bool" where
  "distinctNumbers num ps =
     list_all (\<lambda>p. isFinite (num p) \<and> list_all (\<lambda>q. num p = num q \<longrightarrow> p = q) ps) ps"

text \<open>
  The condition under which applying a delta twice is the same as applying it once: on
  each side the delta touches, the price strings of the book and of the delta denote
  pairwise different finite numbers.
\<close>

definition deltaPricesDistinct ::
  "(string \<Rightarrow> jsnumber) \<Rightarrow> BookState \<Rightarrow> OrderBookMessage \<Rightarrow> bool" where
  "deltaPricesDistinct num st message =
     (case (orderBook st, order_book message) of
        (Some book, Some update) \<Rightarrow>
          (case ob_asks update of
             Some raw \<Rightarrow> distinctNumbers num (map price (asks book) @ map price (normalizeLevels raw))
           | None \<Rightarrow> True)
          \<and> (case ob_bids update of
             Some raw \<Rightarrow> distinctNumbers num (map price (bids book) @ map price (normalizeLevels raw))
           | None \<Rightarrow> True)
      | _ \<Rightarrow> True)"

section \<open>Properties of the rate-limit controller\<close>

lemma suppressEntries_fields:
  "state (suppressEntries rc) = state rc"
  "pausedUntil (suppressEntries rc) = pausedUntil rc"
  "baseInterval (suppressEntries rc) = baseInterval rc"
  "lastCycleAt (suppressEntries rc) = lastCycleAt rc"
  "entriesSuppressed (suppressEntries rc)"
  by (simp_all add: suppressEntries_def logLine_def)

lemma logLine_fields:
  "state (logLine l k rc) = state rc"
  "pausedUntil (logLine l k rc) = pausedUntil rc"
  "baseInterval (logLine l k rc) = baseInterval rc"
  "lastCycleAt (logLine l k rc) = lastCycleAt rc"
  "entriesSuppressed (logLine l k rc) = entriesSuppressed rc"
  by (simp_all add: logLine_def)

text \<open>
  Claim C9. Every call of \<open>registerRateLimit\<close> moves a normal controller to degraded and
  suppresses new entries, moves a degraded controller to paused with the deadline
  \<open>now + pauseMs\<close>, and resets the deadline of a paused controller to \<open>now + pauseMs\<close>.
  In the degraded and paused states \<open>beforeCycle\<close> enforces twice the base interval
  between cycles. A degraded controller skips, without recording anything, exactly the
  cycles that come less than \<open>2 * baseInterval\<close> after \<open>lastCycleAt\<close>, and runs the
  others, recording their time in \<open>lastCycleAt\<close>. A paused controller runs no cycle
  before its deadline (it answers paused and records the time); from the deadline on it
  is degraded and does as a degraded controller. Hence, from either state, a cycle that
  follows a cycle run at time \<open>t\<close> is skipped when it comes less than \<open>2 * baseInterval\<close>
  after \<open>t\<close> and is run otherwise.
\<close>

theorem C9_registerRateLimit_transitions:
  "(state rc = Normal \<longrightarrow>
      state (registerRateLimit now rc) = Degraded
      \<and> entriesSuppressed (registerRateLimit now rc)
      \<and> shouldBlockEntries (registerRateLimit now rc))
   \<and> (state rc = Degraded \<longrightarrow>
      state (registerRateLimit now rc) = Paused
      \<and> pausedUntil (registerRateLimit now rc) = Some (now + pauseMs rc))
   \<and> (state rc = Paused \<longrightarrow>
      state (registerRateLimit now rc) = Paused
      \<and> pausedUntil (registerRateLimit now rc) = Some (now + pauseMs rc))
   \<and> (state rc \<in> {Degraded, Paused} \<longrightarrow> currentInterval rc = 2 * baseInterval rc)
   \<and> (state rc = Degraded \<longrightarrow>
      beforeCycle t rc
        = (if t - lastCycleAt rc < 2 * baseInterval rc then (Skip, rc)
           else (Run, rc\<lparr>lastCycleAt := t\<rparr>)))
   \<and> (state rc = Paused \<and> (pausedUntil rc = None \<or> t < the (pausedUntil rc)) \<longrightarrow>
      beforeCycle t rc = (PausedDecision, rc\<lparr>lastCycleAt := t\<rparr>))
   \<and> (state rc = Paused \<and> pausedUntil rc \<noteq> None \<and> the (pausedUntil rc) \<le> t \<longrightarrow>
      beforeCycle t rc
        = (if t - lastCycleAt rc < 2 * baseInterval rc
           then (Skip, logLine ''info'' ''rate.limit.pausedEnd''
                         (rc\<lparr>state := Degraded, pausedUntil := None\<rparr>))
           else (Run, (logLine ''info'' ''rate.limit.pausedEnd''
                         (rc\<lparr>state := Degraded, pausedUntil := None\<rparr>))\<lparr>lastCycleAt := t\<rparr>)))
   \<and> (state rc \<in> {Degraded, Paused} \<and> fst (beforeCycle t rc) = Run \<longrightarrow>
      state (snd (beforeCycle t rc)) = Degraded
      \<and> lastCycleAt (snd (beforeCycle t rc)) = t
      \<and> fst (beforeCycle t' (snd (beforeCycle t rc)))
          = (if t' - t < 2 * baseInterval rc then Skip else Run))"
proof -
  have reg: "(state rc = Normal \<longrightarrow>
      state (registerRateLimit now rc) = Degraded
      \<and> entriesSuppressed (registerRateLimit now rc)
      \<and> shouldBlockEntries (registerRateLimit now rc))
   \<and> (state rc = Degraded \<longrightarrow>
      state (registerRateLimit now rc) = Paused
      \<and> pausedUntil (registerRateLimit now rc) = Some (now + pauseMs rc))
   \<and> (state rc = Paused \<longrightarrow>
      state (registerRateLimit now rc) = Paused
      \<and> pausedUntil (registerRateLimit now rc) = Some (now + pauseMs rc))"
    by (auto simp: registerRateLimit_def Let_def suppressEntries_fields logLine_fields
          shouldBlockEntries_def)
  have cur: "state rc \<in> {Degraded, Paused} \<longrightarrow> currentInterval rc = 2 * baseInterval rc"
    by (auto simp: currentInterval_def)
  have deg: "state rc = Degraded \<longrightarrow>
      beforeCycle t rc
        = (if t - lastCycleAt rc < 2 * baseInterval rc then (Skip, rc)
           else (Run, rc\<lparr>lastCycleAt := t\<rparr>))"
    by (simp add: beforeCycle_def enforceInterval_def currentInterval_def)
  have wait: "state rc = Paused \<and> (pausedUntil rc = None \<or> t < the (pausedUntil rc)) \<longrightarrow>
      beforeCycle t rc = (PausedDecision, rc\<lparr>lastCycleAt := t\<rparr>)"
    by (auto simp: beforeCycle_def split: option.splits)
  have over: "state rc = Paused \<and> pausedUntil rc \<noteq> None \<and> the (pausedUntil rc) \<le> t \<longrightarrow>
      beforeCycle t rc
        = (if t - lastCycleAt rc < 2 * baseInterval rc
           then (Skip, logLine ''info'' ''rate.limit.pausedEnd''
                         (rc\<lparr>state := Degraded, pausedUntil := None\<rparr>))
           else (Run, (logLine ''info'' ''rate.limit.pausedEnd''
                         (rc\<lparr>state := Degraded, pausedUntil := None\<rparr>))\<lparr>lastCycleAt := t\<rparr>))"
    by (auto simp: beforeCycle_def enforceInterval_def currentInterval_def logLine_def
          split: option.splits)
  have two: "state rc \<in> {Degraded, Paused} \<and> fst (beforeCycle t rc) = Run \<longrightarrow>
      state (snd (beforeCycle t rc)) = Degraded
      \<and> lastCycleAt (snd (beforeCycle t rc)) = t
      \<and> fst (beforeCycle t' (snd (beforeCycle t rc)))
          = (if t' - t < 2 * baseInterval rc then Skip else Run)"
    by (auto simp: beforeCycle_def enforceInterval_def currentInterval_def logLine_def
          split: option.splits if_splits)
  from reg cur deg wait over two show ?thesis by (intro conjI) blast+
qed

text \<open>
  A controller with base interval 500 and the default pause of 30000: rate limits at
  1000, 2000 and 3000; in the degraded state a cycle at 1999 is skipped, one at 2000 runs,
  after which one at 2001 is skipped and one at 3000 runs; the controller paused at 2000
  answers paused at 31999 and runs at 32000.
\<close>

theorem C9_registerRateLimit_witness:
  "state (registerRateLimit 1000 (newRateLimitController 500 None None)) = Degraded
   \<and> shouldBlockEntries (registerRateLimit 1000 (newRateLimitController 500 None None))
   \<and> state (registerRateLimit 2000 (registerRateLimit 1000 (newRateLimitController 500 None None))) = Paused
   \<and> pausedUntil (registerRateLimit 2000 (registerRateLimit 1000 (newRateLimitController 500 None None)))
       = Some 32000
   \<and> pausedUntil (registerRateLimit 3000 (registerRateLimit 2000
         (registerRateLimit 1000 (newRateLimitController 500 None None)))) = Some 33000
   \<and> currentInterval (registerRateLimit 1000 (newRateLimitController 500 None None)) = 1000
   \<and> fst (beforeCycle 1999 (registerRateLimit 1000 (newRateLimitController 500 None None))) = Skip
   \<and> fst (beforeCycle 2000 (registerRateLimit 1000 (newRateLimitController 500 None None))) = Run
   \<and> lastCycleAt (snd (beforeCycle 2000 (registerRateLimit 1000 (newRateLimitController 500 None None))))
       = 2000
   \<and> fst (beforeCycle 2001
         (snd (beforeCycle 2000 (registerRateLimit 1000 (newRateLimitController 500 None None))))) = Skip
   \<and> fst (beforeCycle 3000
         (snd (beforeCycle 2000 (registerRateLimit 1000 (newRateLimitController 500 None None))))) = Run
   \<and> fst (beforeCycle 31999
         (registerRateLimit 2000 (registerRateLimit 1000 (newRateLimitController 500 None None))))
       = PausedDecision
   \<and> fst (beforeCycle 32000
         (registerRateLimit 2000 (registerRateLimit 1000 (newRateLimitController 500 None None))))
       = Run"
  using C9_registerRateLimit_transitions [of "newRateLimitController 500 None None" 1000 0 0]
    C9_registerRateLimit_transitions
      [of "registerRateLimit 1000 (newRateLimitController 500 None None)" 2000 1999 0]
    C9_registerRateLimit_transitions
      [of "registerRateLimit 1000 (newRateLimitController 500 None None)" 2000 2000 2001]
    C9_registerRateLimit_transitions
      [of "registerRateLimit 1000 (newRateLimitController 500 None None)" 2000 2000 3000]
    C9_registerRateLimit_transitions
      [of "registerRateLimit 2000 (registerRateLimit 1000 (newRateLimitController 500 None None))"
          3000 31999 0]
    C9_registerRateLimit_transitions
      [of "registerRateLimit 2000 (registerRateLimit 1000 (newRateLimitController 500 None None))"
          3000 32000 0]
  by (simp add: newRateLimitController_def registerRateLimit_def Let_def suppressEntries_def
        logLine_def DEFAULT_PAUSE_MS_def currentInterval_def shouldBlockEntries_def
        beforeCycle_def enforceInterval_def)
section \<open>Properties of the order-book handlers\<close>

lemma length_insertSorted: "length (insertSorted cmp x ys) = Suc (length ys)"
  by (induction ys) simp_all

lemma length_jsSort: "length (jsSort cmp xs) = length xs"
  by (induction xs) (simp_all add: jsSort_def length_insertSorted)

lemma length_sortAndTrimLevels:
  "length (sortAndTrimLevels num levels side DEFAULT_DEPTH_LIMIT) \<le> 200"
  by (simp add: sortAndTrimLevels_def DEFAULT_DEPTH_LIMIT_def)

lemma orderBook_emitDepth: "orderBook (emitDepth st) = orderBook st"
  by (simp add: emitDepth_def split: option.splits)

lemma depthBounded_snapshot:
  "depthBounded st \<Longrightarrow> depthBounded (handleOrderBookSnapshot num now m st)"
  by (auto simp: handleOrderBookSnapshot_def depthBounded_def Let_def orderBook_emitDepth
        length_sortAndTrimLevels split: option.splits)

lemma depthBounded_update:
  "depthBounded st \<Longrightarrow> depthBounded (handleOrderBookUpdate num now m st)"
  by (auto simp: handleOrderBookUpdate_def mergeBook_def depthBounded_def Let_def
        orderBook_emitDepth length_sortAndTrimLevels split: option.splits)

lemma depthBounded_event:
  "depthBounded st \<Longrightarrow> depthBounded (handleBookEvent num e st)"
  by (cases e; cases "snd e") (auto simp: depthBounded_snapshot depthBounded_update)

lemma depthBounded_fold:
  "depthBounded st \<Longrightarrow> depthBounded (fold (handleBookEvent num) events st)"
  by (induction events arbitrary: st) (simp_all add: depthBounded_event)

text \<open>
  Claim C10. Starting from a gateway that has no order book yet, after every sequence of
  order-book snapshot and delta messages the stored book, if there is one, has at most 200
  bid levels and at most 200 ask levels; every book handed to the depth listeners is the
  stored one.
\<close>

theorem C10_depth_at_most_200:
  "case orderBook (runBook num events (initialBookState m)) of
     None \<Rightarrow> True
   | Some book \<Rightarrow> length (bids book) \<le> 200 \<and> length (asks book) \<le> 200"
proof -
  have "depthBounded (initialBookState m)"
    by (simp add: depthBounded_def initialBookState_def)
  then have "depthBounded (runBook num events (initialBookState m))"
    unfolding runBook_def by (rule depthBounded_fold)
  then show ?thesis by (simp add: depthBounded_def)
qed

subsection \<open>Stale and duplicate order-book messages\<close>

lemmas number_eval =
  decimalNumber_def isDigit_def digitsValue_def digitValue_def leZero_def isFinite_def Let_def

lemmas book_eval =
  runBook_def initialBookState_def handleOrderBookSnapshot_def handleOrderBookUpdate_def
  mergeBook_def
  staleOffset_def duplicateOffset_def incomingOffsetOf_def incomingTsOf_def emitDepth_def
  sortAndTrimLevels_def normalizeLevels_def mergeLevels_def loadLevels_def applyUpdates_def
  entryLevel_def jsSort_def comparePrice_def
  mapDelete_def DEFAULT_DEPTH_LIMIT_def

lemma exampleBookState_value:
  "exampleBookState =
     \<lparr> marketId = Some 1,
       orderBook = Some \<lparr> market_id = 1, offset = 5,
                          bids = [\<lparr> price = ''100'', size_level = ''1'' \<rparr>],
                          asks = [\<lparr> price = ''101'', size_level = ''2'' \<rparr>] \<rparr>,
       lastOrderBookOffset = 5, lastOrderBookTimestamp = 1000,
       depthEvents = [\<lparr> market_id = 1, offset = 5,
                         bids = [\<lparr> price = ''100'', size_level = ''1'' \<rparr>],
                         asks = [\<lparr> price = ''101'', size_level = ''2'' \<rparr>] \<rparr>] \<rparr>"
  by (simp add: exampleBookState_def exampleSnapshot_def book_eval number_eval)

text \<open>
  Claim C3 as stated fails. After the snapshot at offset 5 and time 1000, a delta with
  offset 0 (strictly less than 5) is applied and removes a bid, and a delta with offset 5
  and no timestamp (so its timestamp reads 0, not greater than 1000) is applied as well.
\<close>

theorem C3_counterexample:
  "incomingOffsetOf exampleDeltaOffsetZero < lastOrderBookOffset exampleBookState
   \<and> orderBook (handleOrderBookUpdate decimalNumber 2000 exampleDeltaOffsetZero exampleBookState)
       \<noteq> orderBook exampleBookState
   \<and> incomingOffsetOf exampleDeltaNoTimestamp = lastOrderBookOffset exampleBookState
   \<and> \<not> incomingTsOf exampleDeltaNoTimestamp > lastOrderBookTimestamp exampleBookState
   \<and> orderBook (handleOrderBookUpdate decimalNumber 2000 exampleDeltaNoTimestamp exampleBookState)
       \<noteq> orderBook exampleBookState"
  by (simp add: exampleBookState_value exampleDeltaOffsetZero_def exampleDeltaNoTimestamp_def
        book_eval number_eval)

lemma handleOrderBookSnapshot_applied:
  assumes "\<not> staleOffset st m" and "\<not> duplicateOffset st m" and "order_book m = Some ob"
  shows "handleOrderBookSnapshot num now m st =
     emitDepth
       (st\<lparr> orderBook := Some
              \<lparr> market_id = (case marketId st of Some k \<Rightarrow> k | None \<Rightarrow> 0),
                offset = (case ob_offset ob of Some v \<Rightarrow> v | None \<Rightarrow> now),
                bids = sortAndTrimLevels num
                         (normalizeLevels (case ob_bids ob of Some raw \<Rightarrow> raw | None \<Rightarrow> []))
                         Bid DEFAULT_DEPTH_LIMIT,
                asks = sortAndTrimLevels num
                         (normalizeLevels (case ob_asks ob of Some raw \<Rightarrow> raw | None \<Rightarrow> []))
                         Ask DEFAULT_DEPTH_LIMIT \<rparr>,
            lastOrderBookOffset := (case ob_offset ob of Some v \<Rightarrow> v | None \<Rightarrow> now),
            lastOrderBookTimestamp := (if incomingTsOf m \<noteq> 0 then incomingTsOf m else now) \<rparr>)"
  using assms by (simp add: handleOrderBookSnapshot_def Let_def)

lemma handleOrderBookUpdate_applied_state:
  assumes "\<not> staleOffset st m" and "\<not> duplicateOffset st m" and "order_book m = Some ob"
    and "orderBook st = Some book"
  shows "handleOrderBookUpdate num now m st =
     emitDepth
       (st\<lparr> orderBook := Some (mergeBook num ob book),
            lastOrderBookOffset := offset (mergeBook num ob book),
            lastOrderBookTimestamp := (if incomingTsOf m \<noteq> 0 then incomingTsOf m else now) \<rparr>)"
  using assms by (simp add: handleOrderBookUpdate_def Let_def)

lemma emitDepth_fields:
  "orderBook (emitDepth st) = orderBook st"
  "lastOrderBookOffset (emitDepth st) = lastOrderBookOffset st"
  "lastOrderBookTimestamp (emitDepth st) = lastOrderBookTimestamp st"
  "marketId (emitDepth st) = marketId st"
  "depthEvents (emitDepth st)
     = depthEvents st @ (case orderBook st of
                           None \<Rightarrow> []
                         | Some book \<Rightarrow> (if marketId st = None then [] else [book]))"
  by (auto simp: emitDepth_def split: option.splits)

text \<open>
  Claim C3, amended. A snapshot or delta whose offset is not zero and is strictly less
  than a last applied offset that is not zero leaves the whole gateway state unchanged
  (book, last offset, last timestamp, emitted depth events). A message whose offset equals
  the last applied offset and whose timestamp is not zero and not greater than the last
  applied timestamp is dropped in the same way. Every other message that carries an
  order book is applied: a snapshot replaces the stored book by its sorted and trimmed
  levels, a delta is merged into the stored book when there is one, the last offset and
  the last timestamp are taken over (the clock reading stands in for a timestamp that is
  zero or missing), and the new book is handed to the depth listeners when the market is
  known. In particular a message whose offset is zero or missing is never dropped as
  stale, and a message whose timestamp is zero or missing is never dropped as a duplicate.
\<close>

theorem C3_stale_or_duplicate_dropped:
  "(lastOrderBookOffset st \<noteq> 0 \<and> incomingOffsetOf m \<noteq> 0
      \<and> incomingOffsetOf m < lastOrderBookOffset st
    \<longrightarrow> handleOrderBookSnapshot num now m st = st \<and> handleOrderBookUpdate num now m st = st)
   \<and> (incomingOffsetOf m = lastOrderBookOffset st \<and> incomingTsOf m \<noteq> 0
      \<and> incomingTsOf m \<le> lastOrderBookTimestamp st
    \<longrightarrow> handleOrderBookSnapshot num now m st = st \<and> handleOrderBookUpdate num now m st = st)
   \<and> ((lastOrderBookOffset st = 0 \<or> incomingOffsetOf m = 0
        \<or> lastOrderBookOffset st \<le> incomingOffsetOf m)
      \<and> (incomingOffsetOf m \<noteq> lastOrderBookOffset st \<or> incomingTsOf m = 0
        \<or> lastOrderBookTimestamp st < incomingTsOf m)
      \<and> order_book m = Some ob
    \<longrightarrow> orderBook (handleOrderBookSnapshot num now m st)
          = Some \<lparr> market_id = (case marketId st of Some k \<Rightarrow> k | None \<Rightarrow> 0),
                   offset = (case ob_offset ob of Some v \<Rightarrow> v | None \<Rightarrow> now),
                   bids = sortAndTrimLevels num
                            (normalizeLevels (case ob_bids ob of Some raw \<Rightarrow> raw | None \<Rightarrow> []))
                            Bid DEFAULT_DEPTH_LIMIT,
                   asks = sortAndTrimLevels num
                            (normalizeLevels (case ob_asks ob of Some raw \<Rightarrow> raw | None \<Rightarrow> []))
                            Ask DEFAULT_DEPTH_LIMIT \<rparr>
        \<and> lastOrderBookOffset (handleOrderBookSnapshot num now m st)
          = (case ob_offset ob of Some v \<Rightarrow> v | None \<Rightarrow> now)
        \<and> lastOrderBookTimestamp (handleOrderBookSnapshot num now m st)
          = (if incomingTsOf m \<noteq> 0 then incomingTsOf m else now)
        \<and> depthEvents (handleOrderBookSnapshot num now m st)
          = depthEvents st
            @ (if marketId st = None then []
               else [the (orderBook (handleOrderBookSnapshot num now m st))])
        \<and> (\<forall>book. orderBook st = Some book \<longrightarrow>
             orderBook (handleOrderBookUpdate num now m st) = Some (mergeBook num ob book)
             \<and> lastOrderBookOffset (handleOrderBookUpdate num now m st)
               = offset (mergeBook num ob book)
             \<and> lastOrderBookTimestamp (handleOrderBookUpdate num now m st)
               = (if incomingTsOf m \<noteq> 0 then incomingTsOf m else now)
             \<and> depthEvents (handleOrderBookUpdate num now m st)
               = depthEvents st
                 @ (if marketId st = None then [] else [mergeBook num ob book])))"
proof (intro conjI impI allI)
  assume "lastOrderBookOffset st \<noteq> 0 \<and> incomingOffsetOf m \<noteq> 0
      \<and> incomingOffsetOf m < lastOrderBookOffset st"
  then show "handleOrderBookSnapshot num now m st = st" "handleOrderBookUpdate num now m st = st"
    by (simp_all add: handleOrderBookSnapshot_def handleOrderBookUpdate_def staleOffset_def
          split: option.splits)
next
  assume "incomingOffsetOf m = lastOrderBookOffset st \<and> incomingTsOf m \<noteq> 0
      \<and> incomingTsOf m \<le> lastOrderBookTimestamp st"
  then show "handleOrderBookSnapshot num now m st = st" "handleOrderBookUpdate num now m st = st"
    by (simp_all add: handleOrderBookSnapshot_def handleOrderBookUpdate_def duplicateOffset_def
          split: option.splits)
next
  assume a: "(lastOrderBookOffset st = 0 \<or> incomingOffsetOf m = 0
        \<or> lastOrderBookOffset st \<le> incomingOffsetOf m)
      \<and> (incomingOffsetOf m \<noteq> lastOrderBookOffset st \<or> incomingTsOf m = 0
        \<or> lastOrderBookTimestamp st < incomingTsOf m)
      \<and> order_book m = Some ob"
  then have ns: "\<not> staleOffset st m" and nd: "\<not> duplicateOffset st m"
    and ob: "order_book m = Some ob"
    by (auto simp: staleOffset_def duplicateOffset_def)
  note snap = handleOrderBookSnapshot_applied [OF ns nd ob, of num now]
  show "orderBook (handleOrderBookSnapshot num now m st)
          = Some \<lparr> market_id = (case marketId st of Some k \<Rightarrow> k | None \<Rightarrow> 0),
                   offset = (case ob_offset ob of Some v \<Rightarrow> v | None \<Rightarrow> now),
                   bids = sortAndTrimLevels num
                            (normalizeLevels (case ob_bids ob of Some raw \<Rightarrow> raw | None \<Rightarrow> []))
                            Bid DEFAULT_DEPTH_LIMIT,
                   asks = sortAndTrimLevels num
                            (normalizeLevels (case ob_asks ob of Some raw \<Rightarrow> raw | None \<Rightarrow> []))
                            Ask DEFAULT_DEPTH_LIMIT \<rparr>"
    unfolding snap by (simp add: emitDepth_fields)
  show "lastOrderBookOffset (handleOrderBookSnapshot num now m st)
          = (case ob_offset ob of Some v \<Rightarrow> v | None \<Rightarrow> now)"
    unfolding snap by (simp add: emitDepth_fields)
  show "lastOrderBookTimestamp (handleOrderBookSnapshot num now m st)
          = (if incomingTsOf m \<noteq> 0 then incomingTsOf m else now)"
    unfolding snap by (simp add: emitDepth_fields)
  show "depthEvents (handleOrderBookSnapshot num now m st)
          = depthEvents st
            @ (if marketId st = None then []
               else [the (orderBook (handleOrderBookSnapshot num now m st))])"
    unfolding snap by (simp add: emitDepth_fields)
  fix book
  assume b: "orderBook st = Some book"
  note upd = handleOrderBookUpdate_applied_state [OF ns nd ob b, of num now]
  show "orderBook (handleOrderBookUpdate num now m st) = Some (mergeBook num ob book)"
    unfolding upd by (simp add: emitDepth_fields)
  show "lastOrderBookOffset (handleOrderBookUpdate num now m st) = offset (mergeBook num ob book)"
    unfolding upd by (simp add: emitDepth_fields)
  show "lastOrderBookTimestamp (handleOrderBookUpdate num now m st)
               = (if incomingTsOf m \<noteq> 0 then incomingTsOf m else now)"
    unfolding upd by (simp add: emitDepth_fields)
  show "depthEvents (handleOrderBookUpdate num now m st)
               = depthEvents st
                 @ (if marketId st = None then [] else [mergeBook num ob book])"
    unfolding upd by (simp add: emitDepth_fields)
qed

text \<open>
  After the snapshot at offset 5 and time 1000: a delta at offset 4 and a delta at offset
  5 and time 1000 are dropped by both handlers; the delta with offset 0 is merged, which
  removes the bid at 100, sets the last offset to 0 and emits a second depth event; the
  delta at offset 5 without timestamp is merged as well and the clock reading 2000
  becomes the last timestamp.
\<close>

theorem C3_stale_or_duplicate_witness:
  "handleOrderBookUpdate decimalNumber 2000 exampleDeltaStale exampleBookState = exampleBookState
   \<and> handleOrderBookSnapshot decimalNumber 2000 exampleDeltaStale exampleBookState = exampleBookState
   \<and> handleOrderBookUpdate decimalNumber 2000 exampleDeltaDuplicate exampleBookState = exampleBookState
   \<and> handleOrderBookSnapshot decimalNumber 2000 exampleDeltaDuplicate exampleBookState = exampleBookState
   \<and> orderBook (handleOrderBookUpdate decimalNumber 2000 exampleDeltaOffsetZero exampleBookState)
       = Some \<lparr> market_id = 1, offset = 0, bids = [],
                asks = [\<lparr> price = ''101'', size_level = ''2'' \<rparr>] \<rparr>
   \<and> lastOrderBookOffset (handleOrderBookUpdate decimalNumber 2000 exampleDeltaOffsetZero exampleBookState)
       = 0
   \<and> length (depthEvents (handleOrderBookUpdate decimalNumber 2000 exampleDeltaOffsetZero exampleBookState))
       = 2
   \<and> orderBook (handleOrderBookUpdate decimalNumber 2000 exampleDeltaNoTimestamp exampleBookState)
       = Some \<lparr> market_id = 1, offset = 5, bids = [],
                asks = [\<lparr> price = ''101'', size_level = ''2'' \<rparr>] \<rparr>
   \<and> lastOrderBookTimestamp (handleOrderBookUpdate decimalNumber 2000 exampleDeltaNoTimestamp exampleBookState)
       = 2000
   \<and> orderBook (handleOrderBookSnapshot decimalNumber 2000 exampleDeltaOffsetZero exampleBookState)
       = Some \<lparr> market_id = 1, offset = 0, bids = [\<lparr> price = ''100'', size_level = ''0'' \<rparr>],
                asks = [] \<rparr>"
proof -
  have merged0: "mergeBook decimalNumber
          \<lparr> ob_offset = Some 0, ob_bids = Some [ArrayEntry ''100'' ''0''], ob_asks = None \<rparr>
          \<lparr> market_id = 1, offset = 5,
            bids = [\<lparr> price = ''100'', size_level = ''1'' \<rparr>],
            asks = [\<lparr> price = ''101'', size_level = ''2'' \<rparr>] \<rparr>
       = \<lparr> market_id = 1, offset = 0, bids = [],
           asks = [\<lparr> price = ''101'', size_level = ''2'' \<rparr>] \<rparr>"
    and merged5: "mergeBook decimalNumber
          \<lparr> ob_offset = Some 5, ob_bids = Some [ArrayEntry ''100'' ''0''], ob_asks = None \<rparr>
          \<lparr> market_id = 1, offset = 5,
            bids = [\<lparr> price = ''100'', size_level = ''1'' \<rparr>],
            asks = [\<lparr> price = ''101'', size_level = ''2'' \<rparr>] \<rparr>
       = \<lparr> market_id = 1, offset = 5, bids = [],
           asks = [\<lparr> price = ''101'', size_level = ''2'' \<rparr>] \<rparr>"
    by (simp_all add: book_eval number_eval)
  have sorted0: "sortAndTrimLevels decimalNumber (normalizeLevels [ArrayEntry ''100'' ''0''])
          Bid DEFAULT_DEPTH_LIMIT = [\<lparr> price = ''100'', size_level = ''0'' \<rparr>]"
    "sortAndTrimLevels decimalNumber (normalizeLevels []) Ask DEFAULT_DEPTH_LIMIT = []"
    by (simp_all add: book_eval number_eval)
  show ?thesis
    using C3_stale_or_duplicate_dropped
        [where st = exampleBookState and m = exampleDeltaStale and num = decimalNumber
           and now = 2000]
      C3_stale_or_duplicate_dropped
        [where st = exampleBookState and m = exampleDeltaDuplicate and num = decimalNumber
           and now = 2000]
      C3_stale_or_duplicate_dropped
        [where st = exampleBookState and m = exampleDeltaOffsetZero and num = decimalNumber
           and now = 2000
           and ob = "\<lparr> ob_offset = Some 0, ob_bids = Some [ArrayEntry ''100'' ''0''],
                      ob_asks = None \<rparr>"]
      C3_stale_or_duplicate_dropped
        [where st = exampleBookState and m = exampleDeltaNoTimestamp and num = decimalNumber
           and now = 2000
           and ob = "\<lparr> ob_offset = Some 5, ob_bids = Some [ArrayEntry ''100'' ''0''],
                      ob_asks = None \<rparr>"]
    by (simp add: exampleBookState_value exampleDeltaStale_def exampleDeltaDuplicate_def
          exampleDeltaOffsetZero_def exampleDeltaNoTimestamp_def
          incomingOffsetOf_def incomingTsOf_def merged0 merged5 sorted0)
qed
subsection \<open>The insertion-ordered map and the level merge\<close>

lemma set_mapSet: "set (mapSet k v m) \<subseteq> insert (k, v) (set m)"
  by (induction m) auto

lemma keys_mapSet: "fst ` set (mapSet k v m) = insert k (fst ` set m)"
  by (induction m) auto

lemma distinct_mapSet: "distinct (map fst m) \<Longrightarrow> distinct (map fst (mapSet k v m))"
  by (induction m) (auto simp: keys_mapSet)

lemma map_of_mapSet: "map_of (mapSet k v m) = (map_of m)(k \<mapsto> v)"
  by (induction m) (auto simp: fun_eq_iff)

lemma distinct_mapDelete: "distinct (map fst m) \<Longrightarrow> distinct (map fst (mapDelete k m))"
  by (simp add: mapDelete_def distinct_map_filter)

lemma map_of_mapDelete: "map_of (mapDelete k m) = (map_of m)(k := None)"
  by (induction m) (auto simp: mapDelete_def fun_eq_iff)

lemma set_mapDelete: "set (mapDelete k m) \<subseteq> set m"
  by (auto simp: mapDelete_def)

lemma distinct_loadLevels:
  "distinct (map fst m) \<Longrightarrow> distinct (map fst (loadLevels m xs))"
  unfolding loadLevels_def by (induction xs arbitrary: m) (simp_all add: distinct_mapSet)

lemma distinct_applyUpdates:
  "distinct (map fst m) \<Longrightarrow> distinct (map fst (applyUpdates num m us))"
  unfolding applyUpdates_def
  by (induction us arbitrary: m) (simp_all add: distinct_mapSet distinct_mapDelete)

lemma set_loadLevels:
  "set (loadLevels m xs) \<subseteq> set m \<union> (\<lambda>l. (price l, size_level l)) ` set xs"
  unfolding loadLevels_def
proof (induction xs arbitrary: m)
  case Nil
  show ?case by simp
next
  case (Cons x xs)
  show ?case using Cons.IH [of "mapSet (price x) (size_level x) m"] set_mapSet [of "price x" "size_level x" m]
    by auto
qed

lemma set_applyUpdates:
  "set (applyUpdates num m us)
     \<subseteq> set m \<union> (\<lambda>l. (price l, size_level l)) ` {u \<in> set us. \<not> leZero (num (size_level u))}"
  unfolding applyUpdates_def
proof (induction us arbitrary: m)
  case Nil
  show ?case by simp
next
  case (Cons u us)
  show ?case
  proof (cases "leZero (num (size_level u))")
    case True
    then show ?thesis
      using Cons.IH [of "mapDelete (price u) m"] set_mapDelete [of "price u" m] by auto
  next
    case False
    then show ?thesis
      using Cons.IH [of "mapSet (price u) (size_level u) m"]
        set_mapSet [of "price u" "size_level u" m] by auto
  qed
qed

lemma applyUpdates_touched:
  "p \<in> price ` set us \<Longrightarrow>
     map_of (applyUpdates num m us) p = map_of (applyUpdates num m' us) p"
  unfolding applyUpdates_def
proof (induction us arbitrary: m m' rule: rev_induct)
  case Nil
  then show ?case by simp
next
  case (snoc u us)
  show ?case
  proof (cases "p = price u")
    case True
    then show ?thesis by (simp add: map_of_mapSet map_of_mapDelete)
  next
    case False
    with snoc.prems have "p \<in> price ` set us" by auto
    from snoc.IH [OF this] False show ?thesis
      by (simp add: map_of_mapSet map_of_mapDelete)
  qed
qed

lemma applyUpdates_untouched:
  "p \<notin> price ` set us \<Longrightarrow> map_of (applyUpdates num m us) p = map_of m p"
  unfolding applyUpdates_def
  by (induction us arbitrary: m) (auto simp: map_of_mapSet map_of_mapDelete)

lemma applyUpdates_last:
  "map_of (applyUpdates num m (us @ [u])) (price u)
     = (if leZero (num (size_level u)) then None else Some (size_level u))"
  unfolding applyUpdates_def by (simp add: map_of_mapSet map_of_mapDelete)

lemma map_of_loadLevels:
  "map_of (loadLevels m xs) = map_of m ++ map_of (rev (map (\<lambda>l. (price l, size_level l)) xs))"
  unfolding loadLevels_def
  by (induction xs arbitrary: m) (simp_all add: map_of_mapSet map_of_append fun_eq_iff map_add_def split: option.splits)

lemma level_pair_image:
  "(p, s) \<in> (\<lambda>l. (price l, size_level l)) ` A \<longleftrightarrow> \<lparr> price = p, size_level = s \<rparr> \<in> A"
proof
  assume "(p, s) \<in> (\<lambda>l. (price l, size_level l)) ` A"
  then obtain l where l: "l \<in> A" "price l = p" "size_level l = s" by auto
  have "l = \<lparr> price = price l, size_level = size_level l \<rparr>" by simp
  then have "l = \<lparr> price = p, size_level = s \<rparr>" using l(2,3) by simp
  with l(1) show "\<lparr> price = p, size_level = s \<rparr> \<in> A" by simp
next
  assume "\<lparr> price = p, size_level = s \<rparr> \<in> A"
  then show "(p, s) \<in> (\<lambda>l. (price l, size_level l)) ` A" by force
qed

lemma loadLevels_distinct_member:
  assumes "distinct (map price xs)"
  shows "map_of (loadLevels [] xs) p = Some s \<longleftrightarrow> \<lparr> price = p, size_level = s \<rparr> \<in> set xs"
proof -
  let ?ps = "map (\<lambda>l. (price l, size_level l)) xs"
  have "map fst (rev ?ps) = rev (map price xs)"
    by (simp add: rev_map o_def)
  then have d: "distinct (map fst (rev ?ps))"
    using assms by (simp only: distinct_rev)
  have "map_of (loadLevels [] xs) p = map_of (rev ?ps) p"
    by (simp add: map_of_loadLevels)
  also have "\<dots> = Some s \<longleftrightarrow> (p, s) \<in> set (rev ?ps)"
    using d by (simp del: set_rev rev_map)
  also have "\<dots> \<longleftrightarrow> \<lparr> price = p, size_level = s \<rparr> \<in> set xs"
    by (simp add: level_pair_image)
  finally show ?thesis .
qed

lemma level_eta: "\<lparr> price = price l, size_level = size_level l \<rparr> = (l :: LighterOrderBookLevel)"
  by simp

lemma price_entryLevel: "map price (map entryLevel m) = map fst m"
  by (simp add: entryLevel_def o_def)

lemma distinct_mergeLevels: "distinct (map price (mergeLevels num xs us))"
  unfolding mergeLevels_def price_entryLevel
  by (intro distinct_applyUpdates distinct_loadLevels) simp

lemma entryLevel_member:
  "l \<in> set (map entryLevel m) \<longleftrightarrow> (price l, size_level l) \<in> set m"
proof
  assume "l \<in> set (map entryLevel m)"
  then obtain e where "e \<in> set m" "l = entryLevel e" by auto
  then show "(price l, size_level l) \<in> set m" by (simp add: entryLevel_def)
next
  assume "(price l, size_level l) \<in> set m"
  then have "entryLevel (price l, size_level l) \<in> set (map entryLevel m)" by simp
  then show "l \<in> set (map entryLevel m)" by (simp only: entryLevel_def fst_conv snd_conv level_eta)
qed

lemma mergeLevels_member:
  "l \<in> set (mergeLevels num xs us) \<longleftrightarrow>
     map_of (applyUpdates num (loadLevels [] xs) us) (price l) = Some (size_level l)"
proof -
  have "distinct (map fst (applyUpdates num (loadLevels [] xs) us))"
    by (intro distinct_applyUpdates distinct_loadLevels) simp
  then show ?thesis
    unfolding mergeLevels_def entryLevel_member by simp
qed

lemma mergeLevels_origin:
  assumes "l \<in> set (mergeLevels num xs us)"
  shows "l \<in> set xs \<or> (l \<in> set us \<and> \<not> leZero (num (size_level l)))"
proof -
  from assms have "(price l, size_level l) \<in> set (applyUpdates num (loadLevels [] xs) us)"
    unfolding mergeLevels_def entryLevel_member .
  with set_applyUpdates [of num "loadLevels [] xs" us] set_loadLevels [of "[]" xs]
  have "(price l, size_level l) \<in> (\<lambda>l. (price l, size_level l)) ` set xs
        \<or> (price l, size_level l) \<in> (\<lambda>l. (price l, size_level l)) ` {u \<in> set us. \<not> leZero (num (size_level u))}"
    by auto
  then show ?thesis
    unfolding level_pair_image level_eta by auto
qed

lemma comparePrice_le_iff:
  assumes "isFinite (num (price a))" "isFinite (num (price b))"
  shows "comparePrice num side a b \<le> 0 \<longleftrightarrow> priceKey num side a \<le> priceKey num side b"
  using assms by (auto simp: comparePrice_def priceKey_def isFinite_def split: jsnumber.splits)

lemma insertSorted_insort_key:
  assumes "isFinite (num (price a))" "\<forall>y\<in>set ys. isFinite (num (price y))"
  shows "insertSorted (comparePrice num side) a ys = insort_key (priceKey num side) a ys"
  using assms by (induction ys) (simp_all add: comparePrice_le_iff)

lemma jsSort_sort_key:
  assumes "finitePrices num xs"
  shows "jsSort (comparePrice num side) xs = sort_key (priceKey num side) xs"
  using assms
proof (induction xs)
  case Nil
  show ?case by (simp add: jsSort_def)
next
  case (Cons x xs)
  then have fin: "isFinite (num (price x))" "\<forall>y\<in>set xs. isFinite (num (price y))"
    and ih: "jsSort (comparePrice num side) xs = sort_key (priceKey num side) xs"
    by (simp_all add: finitePrices_def list_all_iff)
  have "jsSort (comparePrice num side) (x # xs)
          = insertSorted (comparePrice num side) x (sort_key (priceKey num side) xs)"
    using ih by (simp add: jsSort_def)
  also have "\<dots> = insort_key (priceKey num side) x (sort_key (priceKey num side) xs)"
    using fin by (intro insertSorted_insort_key) simp_all
  finally show ?case by (simp add: sort_key_def)
qed

lemma sorted_prefix_unique:
  fixes f :: "'a \<Rightarrow> rat"
  assumes "sorted_wrt (\<lambda>a b. f a < f b) xs" "sorted_wrt (\<lambda>a b. f a < f b) ys"
    and "set (take n xs) \<subseteq> set ys" "set ys \<subseteq> set xs"
  shows "take n ys = take n xs"
  using assms
proof (induction n arbitrary: xs ys)
  case 0
  show ?case by simp
next
  case (Suc n)
  show ?case
  proof (cases xs)
    case Nil
    with Suc.prems(4) show ?thesis by simp
  next
    case (Cons x xs')
    with Suc.prems(3) have "x \<in> set ys" by simp
    then obtain y ys' where ys: "ys = y # ys'" by (cases ys) auto
    have xmin: "\<forall>z\<in>set xs'. f x < f z" and sx: "sorted_wrt (\<lambda>a b. f a < f b) xs'"
      using Suc.prems(1) Cons by simp_all
    have ymin: "\<forall>z\<in>set ys'. f y < f z" and sy: "sorted_wrt (\<lambda>a b. f a < f b) ys'"
      using Suc.prems(2) ys by simp_all
    have "y \<in> set xs" using Suc.prems(4) ys by simp
    have yx: "y = x"
    proof (rule ccontr)
      assume "y \<noteq> x"
      with \<open>y \<in> set xs\<close> Cons have "f x < f y" using xmin by auto
      moreover from \<open>x \<in> set ys\<close> \<open>y \<noteq> x\<close> ys have "f y < f x" using ymin by auto
      ultimately show False by simp
    qed
    have a: "set (take n xs') \<subseteq> set ys'"
    proof
      fix z assume z: "z \<in> set (take n xs')"
      then have "z \<in> set xs'" by (rule in_set_takeD)
      then have "f x < f z" using xmin by simp
      then have "z \<noteq> y" using yx by auto
      moreover have "z \<in> set ys" using z Suc.prems(3) Cons by auto
      ultimately show "z \<in> set ys'" using ys by simp
    qed
    have b: "set ys' \<subseteq> set xs'"
    proof
      fix z assume z: "z \<in> set ys'"
      then have "f y < f z" using ymin by simp
      then have "z \<noteq> x" using yx by auto
      moreover have "z \<in> set xs" using z Suc.prems(4) ys by auto
      ultimately show "z \<in> set xs'" using Cons by simp
    qed
    from Suc.IH [OF sx sy a b] yx show ?thesis by (simp add: Cons ys)
  qed
qed

subsection \<open>Sorting by numeric price\<close>

lemma distinctNumbers_finite:
  "distinctNumbers num ps \<Longrightarrow> p \<in> set ps \<Longrightarrow> isFinite (num p)"
  by (simp add: distinctNumbers_def list_all_iff)

lemma distinctNumbers_inj:
  "distinctNumbers num ps \<Longrightarrow> p \<in> set ps \<Longrightarrow> q \<in> set ps \<Longrightarrow> num p = num q \<Longrightarrow> p = q"
  by (simp add: distinctNumbers_def list_all_iff)

lemma priceKey_inj:
  assumes "isFinite (num (price a))" "isFinite (num (price b))"
    and "priceKey num side a = priceKey num side b"
  shows "num (price a) = num (price b)"
  using assms by (auto simp: priceKey_def isFinite_def split: jsnumber.splits if_splits)

lemma strict_sorted_sort_key:
  assumes d: "distinct (map price L)" and dn: "distinctNumbers num ps"
    and sub: "price ` set L \<subseteq> set ps"
  shows "sorted_wrt (\<lambda>a b. priceKey num side a < priceKey num side b)
           (sort_key (priceKey num side) L)"
proof -
  let ?k = "priceKey num side"
  have inj: "inj_on ?k (set L)"
  proof (rule inj_onI)
    fix a b assume ab: "a \<in> set L" "b \<in> set L" "?k a = ?k b"
    then have pa: "price a \<in> set ps" and pb: "price b \<in> set ps" using sub by auto
    have "num (price a) = num (price b)"
      using distinctNumbers_finite [OF dn pa] distinctNumbers_finite [OF dn pb] ab(3)
      by (rule priceKey_inj)
    then have "price a = price b" using distinctNumbers_inj [OF dn pa pb] by simp
    moreover have "inj_on price (set L)" using d by (simp add: distinct_map)
    ultimately show "a = b" using ab(1,2) by (auto dest: inj_onD)
  qed
  have "distinct L" using d by (simp add: distinct_map)
  then have "distinct (map ?k (sort_key ?k L))"
    using inj by (simp add: distinct_map)
  moreover have "sorted (map ?k (sort_key ?k L))" by (rule sorted_sort_key)
  ultimately have "sorted_wrt (<) (map ?k (sort_key ?k L))"
    by (simp add: strict_sorted_iff)
  then show ?thesis by (simp add: sorted_wrt_map)
qed

lemma prices_mergeLevels:
  "price ` set (mergeLevels num xs us) \<subseteq> price ` set xs \<union> price ` set us"
  using mergeLevels_origin [of _ num xs us] by auto

lemma finitePrices_subset:
  "distinctNumbers num ps \<Longrightarrow> price ` set L \<subseteq> set ps \<Longrightarrow> finitePrices num L"
  by (auto simp: finitePrices_def list_all_iff dest: distinctNumbers_finite)

lemma mergeSortTrim_idempotent:
  assumes dn: "distinctNumbers num (map price xs @ map price us)"
  shows "sortAndTrimLevels num
           (mergeLevels num (sortAndTrimLevels num (mergeLevels num xs us) side limit) us)
           side limit
         = sortAndTrimLevels num (mergeLevels num xs us) side limit"
proof -
  let ?k = "priceKey num side" and ?n = "nat (max 1 limit)"
  let ?ps = "map price xs @ map price us"
  let ?M = "mergeLevels num xs us"
  let ?S1 = "sort_key ?k ?M"
  let ?R1 = "take ?n ?S1"
  let ?M2 = "mergeLevels num ?R1 us"
  let ?S2 = "sort_key ?k ?M2"
  have pM: "price ` set ?M \<subseteq> set ?ps" using prices_mergeLevels [of num xs us] by auto
  have R1M: "set ?R1 \<subseteq> set ?M" using set_take_subset [of ?n ?S1] by simp
  have pM2: "price ` set ?M2 \<subseteq> set ?ps"
  proof -
    have "price ` set ?R1 \<subseteq> price ` set ?M" using R1M by (rule image_mono)
    then have a: "price ` set ?R1 \<subseteq> set ?ps" using pM by (rule subset_trans)
    have b: "price ` set us \<subseteq> set ?ps" by simp
    have "price ` set ?R1 \<union> price ` set us \<subseteq> set ?ps" using a b by (rule Un_least)
    with prices_mergeLevels [of num ?R1 us] show ?thesis by (rule subset_trans)
  qed
  have e1: "sortAndTrimLevels num ?M side limit = ?R1"
    by (simp add: sortAndTrimLevels_def jsSort_sort_key [OF finitePrices_subset [OF dn pM]])
  have e2: "sortAndTrimLevels num ?M2 side limit = take ?n ?S2"
    by (simp add: sortAndTrimLevels_def jsSort_sort_key [OF finitePrices_subset [OF dn pM2]])
  have dM: "distinct (map price ?M)" by (rule distinct_mergeLevels)
  have "distinct (map price ?S1)"
    using dM by (simp add: distinct_map)
  then have "distinct (take ?n (map price ?S1))"
    by (rule distinct_take)
  then have dR1: "distinct (map price ?R1)"
    by (simp only: take_map)
  have s1: "sorted_wrt (\<lambda>a b. ?k a < ?k b) ?S1"
    by (rule strict_sorted_sort_key [OF dM dn pM])
  have s2: "sorted_wrt (\<lambda>a b. ?k a < ?k b) ?S2"
    by (rule strict_sorted_sort_key [OF distinct_mergeLevels dn pM2])
  have sub1: "set ?M2 \<subseteq> set ?M"
  proof
    fix l assume "l \<in> set ?M2"
    then have m2: "map_of (applyUpdates num (loadLevels [] ?R1) us) (price l) = Some (size_level l)"
      by (simp only: mergeLevels_member)
    show "l \<in> set ?M"
    proof (cases "price l \<in> price ` set us")
      case True
      from applyUpdates_touched [OF True, of num "loadLevels [] ?R1" "loadLevels [] xs"] m2
      show ?thesis by (simp only: mergeLevels_member)
    next
      case False
      have "map_of (loadLevels [] ?R1) (price l) = Some (size_level l)"
        using applyUpdates_untouched [OF False, of num "loadLevels [] ?R1"] m2 by simp
      then have "l \<in> set ?R1"
        by (simp only: loadLevels_distinct_member [OF dR1] level_eta)
      then show ?thesis using R1M by auto
    qed
  qed
  have sub2: "set ?R1 \<subseteq> set ?M2"
  proof
    fix l assume r: "l \<in> set ?R1"
    then have "l \<in> set ?M" using R1M by auto
    then have m: "map_of (applyUpdates num (loadLevels [] xs) us) (price l) = Some (size_level l)"
      by (simp only: mergeLevels_member)
    show "l \<in> set ?M2"
    proof (cases "price l \<in> price ` set us")
      case True
      from applyUpdates_touched [OF True, of num "loadLevels [] xs" "loadLevels [] ?R1"] m
      show ?thesis by (simp only: mergeLevels_member)
    next
      case False
      have "map_of (loadLevels [] ?R1) (price l) = Some (size_level l)"
        using r by (simp only: loadLevels_distinct_member [OF dR1] level_eta)
      then show ?thesis
        using applyUpdates_untouched [OF False, of num "loadLevels [] ?R1"]
        by (simp only: mergeLevels_member)
    qed
  qed
  have "take ?n ?S2 = take ?n ?S1"
  proof (rule sorted_prefix_unique [OF s1 s2])
    show "set (take ?n ?S1) \<subseteq> set ?S2" using sub2 by simp
    show "set ?S2 \<subseteq> set ?S1" using sub1 by simp
  qed
  then show ?thesis by (simp only: e1 e2)
qed

subsection \<open>Applying a delta twice\<close>

lemma mergeLevels_last:
  "(leZero (num (size_level u)) \<longrightarrow> price u \<notin> price ` set (mergeLevels num existing (us @ [u])))
   \<and> (\<not> leZero (num (size_level u)) \<longrightarrow>
        (\<forall>l\<in>set (mergeLevels num existing (us @ [u])). price l = price u \<longleftrightarrow> l = u)
        \<and> u \<in> set (mergeLevels num existing (us @ [u])))"
proof (intro conjI impI)
  assume z: "leZero (num (size_level u))"
  show "price u \<notin> price ` set (mergeLevels num existing (us @ [u]))"
  proof
    assume "price u \<in> price ` set (mergeLevels num existing (us @ [u]))"
    then obtain l where "l \<in> set (mergeLevels num existing (us @ [u]))" "price l = price u" by auto
    then show False using z applyUpdates_last [of num "loadLevels [] existing" us u]
      by (simp add: mergeLevels_member)
  qed
next
  assume nz: "\<not> leZero (num (size_level u))"
  then show u: "u \<in> set (mergeLevels num existing (us @ [u]))"
    using applyUpdates_last [of num "loadLevels [] existing" us u]
    by (simp add: mergeLevels_member)
  show "\<forall>l\<in>set (mergeLevels num existing (us @ [u])). price l = price u \<longleftrightarrow> l = u"
  proof
    fix l assume l: "l \<in> set (mergeLevels num existing (us @ [u]))"
    have "inj_on price (set (mergeLevels num existing (us @ [u])))"
      using distinct_mergeLevels [of num existing "us @ [u]"] by (simp add: distinct_map)
    then show "price l = price u \<longleftrightarrow> l = u" using l u by (auto dest: inj_onD)
  qed
qed

lemma applyUpdates_decides:
  assumes "price u \<notin> price ` set later"
  shows "map_of (applyUpdates num m (earlier @ u # later)) (price u)
           = (if leZero (num (size_level u)) then None else Some (size_level u))"
proof -
  have "applyUpdates num m (earlier @ u # later)
          = applyUpdates num (applyUpdates num m (earlier @ [u])) later"
    by (simp add: applyUpdates_def)
  then have "map_of (applyUpdates num m (earlier @ u # later)) (price u)
          = map_of (applyUpdates num m (earlier @ [u])) (price u)"
    using applyUpdates_untouched [OF assms, of num "applyUpdates num m (earlier @ [u])"]
    by simp
  then show ?thesis by (simp only: applyUpdates_last)
qed

lemma mergeLevels_decides:
  assumes later: "price u \<notin> price ` set later"
  shows "(leZero (num (size_level u)) \<longrightarrow>
            price u \<notin> price ` set (mergeLevels num existing (earlier @ u # later)))
   \<and> (\<not> leZero (num (size_level u)) \<longrightarrow>
        (\<forall>l\<in>set (mergeLevels num existing (earlier @ u # later)). price l = price u \<longleftrightarrow> l = u)
        \<and> u \<in> set (mergeLevels num existing (earlier @ u # later)))"
proof (intro conjI impI)
  assume z: "leZero (num (size_level u))"
  show "price u \<notin> price ` set (mergeLevels num existing (earlier @ u # later))"
  proof
    assume "price u \<in> price ` set (mergeLevels num existing (earlier @ u # later))"
    then obtain l where "l \<in> set (mergeLevels num existing (earlier @ u # later))"
      "price l = price u" by auto
    then show False
      using z applyUpdates_decides [OF later, of num "loadLevels [] existing" earlier]
      by (simp add: mergeLevels_member)
  qed
next
  assume nz: "\<not> leZero (num (size_level u))"
  then show u: "u \<in> set (mergeLevels num existing (earlier @ u # later))"
    using applyUpdates_decides [OF later, of num "loadLevels [] existing" earlier]
    by (simp add: mergeLevels_member)
  show "\<forall>l\<in>set (mergeLevels num existing (earlier @ u # later)). price l = price u \<longleftrightarrow> l = u"
  proof
    fix l assume l: "l \<in> set (mergeLevels num existing (earlier @ u # later))"
    have "inj_on price (set (mergeLevels num existing (earlier @ u # later)))"
      using distinct_mergeLevels [of num existing "earlier @ u # later"] by (simp add: distinct_map)
    then show "price l = price u \<longleftrightarrow> l = u" using l u by (auto dest: inj_onD)
  qed
qed

lemma mergeLevels_untouched:
  assumes d: "distinct (map price existing)" and p: "price l \<notin> price ` set us"
  shows "l \<in> set (mergeLevels num existing us) \<longleftrightarrow> l \<in> set existing"
proof -
  have "l \<in> set (mergeLevels num existing us)
          \<longleftrightarrow> map_of (loadLevels [] existing) (price l) = Some (size_level l)"
    using applyUpdates_untouched [OF p, of num "loadLevels [] existing"]
    by (simp only: mergeLevels_member)
  also have "\<dots> \<longleftrightarrow> l \<in> set existing"
    by (simp only: loadLevels_distinct_member [OF d] level_eta)
  finally show ?thesis .
qed

lemma mergeBook_idempotent:
  assumes "case ob_asks update of
             Some raw \<Rightarrow> distinctNumbers num (map price (asks book) @ map price (normalizeLevels raw))
           | None \<Rightarrow> True"
    and "case ob_bids update of
             Some raw \<Rightarrow> distinctNumbers num (map price (bids book) @ map price (normalizeLevels raw))
           | None \<Rightarrow> True"
  shows "asks (mergeBook num update (mergeBook num update book)) = asks (mergeBook num update book)"
    and "bids (mergeBook num update (mergeBook num update book)) = bids (mergeBook num update book)"
  using assms
  by (auto simp: mergeBook_def Let_def mergeSortTrim_idempotent split: option.splits)

lemma handleOrderBookUpdate_dropped:
  "orderBook st = None \<or> staleOffset st m \<or> duplicateOffset st m \<or> order_book m = None
   \<Longrightarrow> handleOrderBookUpdate num now m st = st"
  by (auto simp: handleOrderBookUpdate_def split: option.splits)

lemma handleOrderBookUpdate_applied:
  "orderBook st = Some book \<Longrightarrow> \<not> staleOffset st m \<Longrightarrow> \<not> duplicateOffset st m
   \<Longrightarrow> order_book m = Some update
   \<Longrightarrow> orderBook (handleOrderBookUpdate num now m st) = Some (mergeBook num update book)"
  by (simp add: handleOrderBookUpdate_def Let_def orderBook_emitDepth)

lemma handleOrderBookUpdate_twice:
  assumes "deltaPricesDistinct num st m"
  shows "map_option asks (orderBook (handleOrderBookUpdate num now2 m (handleOrderBookUpdate num now1 m st)))
           = map_option asks (orderBook (handleOrderBookUpdate num now1 m st))
         \<and> map_option bids (orderBook (handleOrderBookUpdate num now2 m (handleOrderBookUpdate num now1 m st)))
           = map_option bids (orderBook (handleOrderBookUpdate num now1 m st))"
proof -
  let ?st1 = "handleOrderBookUpdate num now1 m st"
  let ?st2 = "handleOrderBookUpdate num now2 m ?st1"
  show ?thesis
  proof (cases "orderBook st = None \<or> staleOffset st m \<or> duplicateOffset st m \<or> order_book m = None")
    case True
    then have "?st1 = st" by (rule handleOrderBookUpdate_dropped)
    moreover from True have "handleOrderBookUpdate num now2 m st = st"
      by (rule handleOrderBookUpdate_dropped)
    ultimately show ?thesis by simp
  next
    case False
    then obtain book update where bu: "orderBook st = Some book" "order_book m = Some update"
      and nd: "\<not> staleOffset st m" "\<not> duplicateOffset st m"
      by auto
    have b1: "orderBook ?st1 = Some (mergeBook num update book)"
      using bu(1) nd bu(2) by (rule handleOrderBookUpdate_applied)
    show ?thesis
    proof (cases "staleOffset ?st1 m \<or> duplicateOffset ?st1 m")
      case True
      then have "?st2 = ?st1" by (intro handleOrderBookUpdate_dropped) auto
      then show ?thesis by simp
    next
      case False
      then have b2: "orderBook ?st2 = Some (mergeBook num update (mergeBook num update book))"
        using handleOrderBookUpdate_applied [OF b1 _ _ bu(2), of num now2] by simp
      from assms bu have
        "case ob_asks update of
             Some raw \<Rightarrow> distinctNumbers num (map price (asks book) @ map price (normalizeLevels raw))
           | None \<Rightarrow> True"
        "case ob_bids update of
             Some raw \<Rightarrow> distinctNumbers num (map price (bids book) @ map price (normalizeLevels raw))
           | None \<Rightarrow> True"
        by (simp_all add: deltaPricesDistinct_def)
      from mergeBook_idempotent [OF this] b1 b2 show ?thesis by simp
    qed
  qed
qed

subsection \<open>The invariant of the data model\<close>

lemma sideInvariant_sortAndTrimLevels:
  assumes fin: "finitePrices num L" and d: "distinct (map price L)"
    and pos: "list_all (positiveSize num) L"
  shows "sideInvariant num side (sortAndTrimLevels num L side limit)"
proof -
  let ?k = "priceKey num side" and ?n = "nat (max 1 limit)"
  let ?S = "sort_key ?k L"
  have e: "sortAndTrimLevels num L side limit = take ?n ?S"
    by (simp add: sortAndTrimLevels_def jsSort_sort_key [OF fin])
  have sub: "set (take ?n ?S) \<subseteq> set L" using set_take_subset [of ?n ?S] by simp
  have f: "finitePrices num (take ?n ?S)"
    using fin sub by (auto simp: finitePrices_def list_all_iff)
  have "sorted (map ?k ?S)" by (rule sorted_sort_key)
  then have "sorted (take ?n (map ?k ?S))" by (rule sorted_wrt_take)
  then have s: "sorted (map ?k (take ?n ?S))" by (simp only: take_map)
  have "distinct (map price ?S)" using d by (simp add: distinct_map)
  then have "distinct (take ?n (map price ?S))" by (rule distinct_take)
  then have dd: "distinct (map price (take ?n ?S))" by (simp only: take_map)
  have p: "list_all (positiveSize num) (take ?n ?S)"
    using pos sub by (auto simp: list_all_iff)
  show ?thesis
    unfolding e sideInvariant_def sortedSide_def using f s dd p by simp
qed

lemma positive_of_not_leZero:
  "\<not> leZero (num (size_level l)) \<Longrightarrow> num (size_level l) \<noteq> NaN \<Longrightarrow> positiveSize num l"
  by (auto simp: leZero_def positiveSize_def split: jsnumber.splits)

lemma mergeLevels_keeps_wellformed:
  assumes "finitePrices num ex" "list_all (positiveSize num) ex"
    and "finitePrices num us" "list_all (\<lambda>l. num (size_level l) \<noteq> NaN) us"
  shows "finitePrices num (mergeLevels num ex us)"
    and "list_all (positiveSize num) (mergeLevels num ex us)"
proof -
  have o: "\<And>l. l \<in> set (mergeLevels num ex us) \<Longrightarrow>
              l \<in> set ex \<or> (l \<in> set us \<and> \<not> leZero (num (size_level l)))"
    by (rule mergeLevels_origin)
  show "finitePrices num (mergeLevels num ex us)"
    unfolding finitePrices_def list_all_iff
  proof
    fix l assume "l \<in> set (mergeLevels num ex us)"
    from o [OF this] assms(1,3) show "isFinite (num (price l))"
      by (auto simp: finitePrices_def list_all_iff)
  qed
  show "list_all (positiveSize num) (mergeLevels num ex us)"
    unfolding list_all_iff
  proof
    fix l assume "l \<in> set (mergeLevels num ex us)"
    from o [OF this] assms(2,4) show "positiveSize num l"
      by (auto simp: list_all_iff intro: positive_of_not_leZero)
  qed
qed

lemma sideInvariant_merge:
  assumes inv: "sideInvariant num side ex"
    and ok: "finitePrices num us" "list_all (\<lambda>l. num (size_level l) \<noteq> NaN) us"
  shows "sideInvariant num side (sortAndTrimLevels num (mergeLevels num ex us) side limit)"
proof -
  from inv have "finitePrices num ex" "list_all (positiveSize num) ex"
    by (simp_all add: sideInvariant_def sortedSide_def)
  from mergeLevels_keeps_wellformed [OF this ok] distinct_mergeLevels [of num ex us]
  show ?thesis by (intro sideInvariant_sortAndTrimLevels)
qed

lemma sideInvariant_Nil: "sideInvariant num side (sortAndTrimLevels num [] side limit)"
  by (intro sideInvariant_sortAndTrimLevels) (simp_all add: finitePrices_def)

lemma bookInvariant_snapshot:
  assumes "bookInvariant num st" "eventOk num (SubscribedOrderBook m)"
  shows "bookInvariant num (handleOrderBookSnapshot num now m st)"
proof (cases "order_book m")
  case None
  with assms(1) show ?thesis by (simp add: handleOrderBookSnapshot_def)
next
  case (Some ob)
  with assms(2) have ok: "snapshotSideOk num (ob_bids ob)" "snapshotSideOk num (ob_asks ob)"
    by simp_all
  have b: "sideInvariant num Bid (sortAndTrimLevels num
             (normalizeLevels (case ob_bids ob of Some raw \<Rightarrow> raw | None \<Rightarrow> [])) Bid DEFAULT_DEPTH_LIMIT)"
    using ok(1)
    by (cases "ob_bids ob")
      (auto simp: snapshotSideOk_def normalizeLevels_def sideInvariant_Nil
        intro: sideInvariant_sortAndTrimLevels)
  have a: "sideInvariant num Ask (sortAndTrimLevels num
             (normalizeLevels (case ob_asks ob of Some raw \<Rightarrow> raw | None \<Rightarrow> [])) Ask DEFAULT_DEPTH_LIMIT)"
    using ok(2)
    by (cases "ob_asks ob")
      (auto simp: snapshotSideOk_def normalizeLevels_def sideInvariant_Nil
        intro: sideInvariant_sortAndTrimLevels)
  show ?thesis
    using assms(1) Some a b
    by (simp add: handleOrderBookSnapshot_def bookInvariant_def Let_def orderBook_emitDepth)
qed

lemma bookInvariant_mergeBook:
  assumes "sideInvariant num Bid (bids book)" "sideInvariant num Ask (asks book)"
    and "deltaSideOk num (ob_bids update)" "deltaSideOk num (ob_asks update)"
  shows "sideInvariant num Bid (bids (mergeBook num update book))
         \<and> sideInvariant num Ask (asks (mergeBook num update book))"
  using assms
  by (auto simp: mergeBook_def Let_def deltaSideOk_def split: option.splits
        intro: sideInvariant_merge)

lemma bookInvariant_update:
  assumes "bookInvariant num st" "eventOk num (UpdateOrderBook m)"
  shows "bookInvariant num (handleOrderBookUpdate num now m st)"
proof (cases "orderBook st = None \<or> staleOffset st m \<or> duplicateOffset st m \<or> order_book m = None")
  case True
  then have "handleOrderBookUpdate num now m st = st" by (rule handleOrderBookUpdate_dropped)
  with assms(1) show ?thesis by simp
next
  case False
  then obtain book update where bu: "orderBook st = Some book" "order_book m = Some update"
    and nd: "\<not> staleOffset st m" "\<not> duplicateOffset st m"
    by auto
  have b1: "orderBook (handleOrderBookUpdate num now m st) = Some (mergeBook num update book)"
    using bu(1) nd bu(2) by (rule handleOrderBookUpdate_applied)
  from assms bu have "sideInvariant num Bid (bids book)" "sideInvariant num Ask (asks book)"
    "deltaSideOk num (ob_bids update)" "deltaSideOk num (ob_asks update)"
    by (simp_all add: bookInvariant_def)
  from bookInvariant_mergeBook [OF this] b1 show ?thesis
    by (simp add: bookInvariant_def)
qed

lemma bookInvariant_runBook:
  assumes "bookInvariant num st" "list_all (\<lambda>e. eventOk num (snd e)) events"
  shows "bookInvariant num (runBook num events st)"
  using assms unfolding runBook_def
proof (induction events arbitrary: st)
  case Nil
  then show ?case by simp
next
  case (Cons e events)
  obtain now ev where e: "e = (now, ev)" by (cases e)
  from Cons.prems have ok: "eventOk num ev" and rest: "list_all (\<lambda>e. eventOk num (snd e)) events"
    by (simp_all add: e)
  have "bookInvariant num (handleBookEvent num e st)"
    using Cons.prems(1) ok unfolding e
    by (cases ev) (simp_all add: bookInvariant_snapshot bookInvariant_update)
  from Cons.IH [OF this rest] show ?case by simp
qed

subsection \<open>Claims about the stored book\<close>

lemmas invariant_eval =
  bookInvariant_def sideInvariant_def sortedSide_def finitePrices_def positiveSize_def
  priceKey_def snapshotSideOk_def deltaSideOk_def distinctNumbers_def deltaPricesDistinct_def

lemma exampleDeepState_value:
  "exampleDeepState =
     \<lparr> marketId = Some 1,
       orderBook = Some \<lparr> market_id = 1, offset = 5,
                          bids = [\<lparr> price = ''100'', size_level = ''1'' \<rparr>,
                                  \<lparr> price = ''99'', size_level = ''2'' \<rparr>,
                                  \<lparr> price = ''98'', size_level = ''3'' \<rparr>],
                          asks = [\<lparr> price = ''101'', size_level = ''2'' \<rparr>,
                                  \<lparr> price = ''102'', size_level = ''1'' \<rparr>] \<rparr>,
       lastOrderBookOffset = 5, lastOrderBookTimestamp = 1000,
       depthEvents = [\<lparr> market_id = 1, offset = 5,
                         bids = [\<lparr> price = ''100'', size_level = ''1'' \<rparr>,
                                 \<lparr> price = ''99'', size_level = ''2'' \<rparr>,
                                 \<lparr> price = ''98'', size_level = ''3'' \<rparr>],
                         asks = [\<lparr> price = ''101'', size_level = ''2'' \<rparr>,
                                 \<lparr> price = ''102'', size_level = ''1'' \<rparr>] \<rparr>] \<rparr>"
  by (simp add: exampleDeepState_def exampleSnapshotDeep_def book_eval number_eval)

lemma exampleDeltaMixed_once:
  "orderBook (handleOrderBookUpdate decimalNumber 2000 exampleDeltaMixed exampleDeepState)
     = Some \<lparr> market_id = 1, offset = 5,
              bids = [\<lparr> price = ''100'', size_level = ''5'' \<rparr>,
                      \<lparr> price = ''98'', size_level = ''3'' \<rparr>,
                      \<lparr> price = ''97'', size_level = ''6'' \<rparr>],
              asks = [\<lparr> price = ''102'', size_level = ''1'' \<rparr>,
                      \<lparr> price = ''103'', size_level = ''1'' \<rparr>] \<rparr>"
  by (simp add: exampleDeepState_value exampleDeltaMixed_def book_eval number_eval)


text \<open>
  The invariant on well-formed input. Starting from a gateway without a book, after every
  sequence of snapshot and delta messages in which every snapshot side carries finite
  prices, pairwise different price strings and positive sizes, and every delta side
  carries finite prices and sizes that are numbers, the stored book has its bids in
  descending and its asks in ascending order of price, no side holds two levels with the
  same price string, and every level has a positive size.
\<close>

theorem book_invariant_on_wellformed_runs:
  "list_all (\<lambda>e. eventOk num (snd e)) events \<Longrightarrow>
     bookInvariant num (runBook num events (initialBookState m))"
  by (rule bookInvariant_runBook) (simp add: bookInvariant_def initialBookState_def)

theorem book_invariant_on_wellformed_runs_witness:
  "list_all (\<lambda>e. eventOk decimalNumber (snd e))
     [(1000, SubscribedOrderBook exampleSnapshotDeep), (2000, UpdateOrderBook exampleDeltaMixed)]
   \<and> bookInvariant decimalNumber
       (runBook decimalNumber
          [(1000, SubscribedOrderBook exampleSnapshotDeep), (2000, UpdateOrderBook exampleDeltaMixed)]
          (initialBookState (Some 1)))
   \<and> orderBook (runBook decimalNumber
          [(1000, SubscribedOrderBook exampleSnapshotDeep), (2000, UpdateOrderBook exampleDeltaMixed)]
          (initialBookState (Some 1)))
      = Some \<lparr> market_id = 1, offset = 5,
              bids = [\<lparr> price = ''100'', size_level = ''5'' \<rparr>,
                      \<lparr> price = ''98'', size_level = ''3'' \<rparr>,
                      \<lparr> price = ''97'', size_level = ''6'' \<rparr>],
              asks = [\<lparr> price = ''102'', size_level = ''1'' \<rparr>,
                      \<lparr> price = ''103'', size_level = ''1'' \<rparr>] \<rparr>"
proof -
  have ok: "list_all (\<lambda>e. eventOk decimalNumber (snd e))
     [(1000, SubscribedOrderBook exampleSnapshotDeep), (2000, UpdateOrderBook exampleDeltaMixed)]"
    by (simp add: exampleSnapshotDeep_def exampleDeltaMixed_def normalizeLevels_def
          number_eval invariant_eval)
  have run: "runBook decimalNumber
          [(1000, SubscribedOrderBook exampleSnapshotDeep), (2000, UpdateOrderBook exampleDeltaMixed)]
          (initialBookState (Some 1))
        = handleOrderBookUpdate decimalNumber 2000 exampleDeltaMixed exampleDeepState"
    by (simp add: runBook_def exampleDeepState_def)
  from ok book_invariant_on_wellformed_runs [OF ok, of "Some 1"] show ?thesis
    unfolding run exampleDeltaMixed_once by simp
qed

text \<open>
  Claim C6 as stated fails. The map of \<open>mergeLevels\<close> is keyed by the price string, and
  the sort compares numbers: \<open>1.0\<close> and \<open>1.00\<close> are two keys with one number. A delta
  that deletes \<open>1.0\<close>, sets it again and then sets \<open>1.00\<close> is accepted twice (it has no
  timestamp), and the second application swaps the two levels.
\<close>

theorem C6_counterexample:
  "map_option bids (orderBook (handleOrderBookUpdate decimalNumber 2000 exampleDeltaTies exampleBookState))
     = Some [\<lparr> price = ''100'', size_level = ''1'' \<rparr>, \<lparr> price = ''1.0'', size_level = ''5'' \<rparr>,
             \<lparr> price = ''1.00'', size_level = ''7'' \<rparr>]
   \<and> map_option bids (orderBook (handleOrderBookUpdate decimalNumber 3000 exampleDeltaTies
         (handleOrderBookUpdate decimalNumber 2000 exampleDeltaTies exampleBookState)))
     = Some [\<lparr> price = ''100'', size_level = ''1'' \<rparr>, \<lparr> price = ''1.00'', size_level = ''7'' \<rparr>,
             \<lparr> price = ''1.0'', size_level = ''5'' \<rparr>]"
  by (simp add: exampleBookState_value exampleDeltaTies_def book_eval number_eval)

text \<open>
  Claim C6, amended. Whenever, on each side a delta touches, the price strings of the book
  and of the delta denote pairwise different finite numbers, handling the delta twice in
  succession leaves the same bids and asks as handling it once (the second time it is
  either dropped as a duplicate or merged again with the same result). In the level merge
  the last update that the delta carries for a price decides that price level: a size that
  is zero or negative removes the level, and every other size puts exactly that update at
  that price. A price that the delta does not carry keeps the level it has in a book
  whose prices are pairwise different, and has none when the book has none.
\<close>

theorem C6_delta_idempotent:
  "(deltaPricesDistinct num st m \<longrightarrow>
      map_option asks (orderBook (handleOrderBookUpdate num now2 m (handleOrderBookUpdate num now1 m st)))
        = map_option asks (orderBook (handleOrderBookUpdate num now1 m st))
      \<and> map_option bids (orderBook (handleOrderBookUpdate num now2 m (handleOrderBookUpdate num now1 m st)))
        = map_option bids (orderBook (handleOrderBookUpdate num now1 m st)))
   \<and> (price u \<notin> price ` set later \<and> leZero (num (size_level u)) \<longrightarrow>
        price u \<notin> price ` set (mergeLevels num existing (earlier @ u # later)))
   \<and> (price u \<notin> price ` set later \<and> \<not> leZero (num (size_level u)) \<longrightarrow>
        (\<forall>l\<in>set (mergeLevels num existing (earlier @ u # later)). price l = price u \<longleftrightarrow> l = u)
        \<and> u \<in> set (mergeLevels num existing (earlier @ u # later)))
   \<and> (distinct (map price existing) \<and> price l \<notin> price ` set us \<longrightarrow>
        (l \<in> set (mergeLevels num existing us) \<longleftrightarrow> l \<in> set existing))"
  using handleOrderBookUpdate_twice [of num st m now2 now1]
    mergeLevels_decides [of u later num existing earlier]
    mergeLevels_untouched [of existing l us num]
  by blast

text \<open>
  The delta of the example applied to the book with bids 100, 99, 98 and asks 101, 102:
  once and twice it leaves the bids 100 (size 5), 98, 97 (size 6) and the asks 102, 103.
  In the merge of its bids, 99 is removed, the later of the two updates at 97 stands, and
  98, which the delta does not carry, keeps its level.
\<close>

theorem C6_delta_idempotent_witness:
  "deltaPricesDistinct decimalNumber exampleDeepState exampleDeltaMixed
   \<and> map_option bids (orderBook (handleOrderBookUpdate decimalNumber 3000 exampleDeltaMixed
         (handleOrderBookUpdate decimalNumber 2000 exampleDeltaMixed exampleDeepState)))
     = Some [\<lparr> price = ''100'', size_level = ''5'' \<rparr>, \<lparr> price = ''98'', size_level = ''3'' \<rparr>,
             \<lparr> price = ''97'', size_level = ''6'' \<rparr>]
   \<and> map_option asks (orderBook (handleOrderBookUpdate decimalNumber 3000 exampleDeltaMixed
         (handleOrderBookUpdate decimalNumber 2000 exampleDeltaMixed exampleDeepState)))
     = Some [\<lparr> price = ''102'', size_level = ''1'' \<rparr>, \<lparr> price = ''103'', size_level = ''1'' \<rparr>]
   \<and> ''99'' \<notin> price ` set (mergeLevels decimalNumber
         [\<lparr> price = ''100'', size_level = ''1'' \<rparr>, \<lparr> price = ''99'', size_level = ''2'' \<rparr>,
          \<lparr> price = ''98'', size_level = ''3'' \<rparr>]
         ([] @ \<lparr> price = ''99'', size_level = ''0'' \<rparr>
            # [\<lparr> price = ''97'', size_level = ''4'' \<rparr>, \<lparr> price = ''100'', size_level = ''5'' \<rparr>,
               \<lparr> price = ''97'', size_level = ''6'' \<rparr>]))
   \<and> \<lparr> price = ''97'', size_level = ''6'' \<rparr> \<in> set (mergeLevels decimalNumber
         [\<lparr> price = ''100'', size_level = ''1'' \<rparr>, \<lparr> price = ''99'', size_level = ''2'' \<rparr>,
          \<lparr> price = ''98'', size_level = ''3'' \<rparr>]
         ([\<lparr> price = ''99'', size_level = ''0'' \<rparr>, \<lparr> price = ''97'', size_level = ''4'' \<rparr>,
           \<lparr> price = ''100'', size_level = ''5'' \<rparr>]
          @ \<lparr> price = ''97'', size_level = ''6'' \<rparr> # []))
   \<and> \<lparr> price = ''98'', size_level = ''3'' \<rparr> \<in> set (mergeLevels decimalNumber
         [\<lparr> price = ''100'', size_level = ''1'' \<rparr>, \<lparr> price = ''99'', size_level = ''2'' \<rparr>,
          \<lparr> price = ''98'', size_level = ''3'' \<rparr>]
         [\<lparr> price = ''99'', size_level = ''0'' \<rparr>, \<lparr> price = ''97'', size_level = ''4'' \<rparr>,
          \<lparr> price = ''100'', size_level = ''5'' \<rparr>, \<lparr> price = ''97'', size_level = ''6'' \<rparr>])"
proof -
  have d: "deltaPricesDistinct decimalNumber exampleDeepState exampleDeltaMixed"
    by (simp add: exampleDeepState_value exampleDeltaMixed_def normalizeLevels_def
          number_eval invariant_eval)
  have z: "leZero (decimalNumber ''0'')" and nz: "\<not> leZero (decimalNumber ''6'')"
    by (simp_all add: number_eval)
  note once = exampleDeltaMixed_once
  from d z nz once
    C6_delta_idempotent [where num = decimalNumber and st = exampleDeepState
      and m = exampleDeltaMixed and ?now2.0 = 3000 and ?now1.0 = 2000
      and u = "\<lparr> price = ''99'', size_level = ''0'' \<rparr>"
      and existing = "[\<lparr> price = ''100'', size_level = ''1'' \<rparr>,
          \<lparr> price = ''99'', size_level = ''2'' \<rparr>, \<lparr> price = ''98'', size_level = ''3'' \<rparr>]"
      and earlier = "[]"
      and later = "[\<lparr> price = ''97'', size_level = ''4'' \<rparr>,
          \<lparr> price = ''100'', size_level = ''5'' \<rparr>, \<lparr> price = ''97'', size_level = ''6'' \<rparr>]"
      and l = "\<lparr> price = ''98'', size_level = ''3'' \<rparr>"
      and us = "[\<lparr> price = ''99'', size_level = ''0'' \<rparr>, \<lparr> price = ''97'', size_level = ''4'' \<rparr>,
          \<lparr> price = ''100'', size_level = ''5'' \<rparr>, \<lparr> price = ''97'', size_level = ''6'' \<rparr>]"]
    C6_delta_idempotent [where num = decimalNumber and st = exampleDeepState
      and m = exampleDeltaMixed and ?now2.0 = 3000 and ?now1.0 = 2000
      and u = "\<lparr> price = ''97'', size_level = ''6'' \<rparr>"
      and existing = "[\<lparr> price = ''100'', size_level = ''1'' \<rparr>,
          \<lparr> price = ''99'', size_level = ''2'' \<rparr>, \<lparr> price = ''98'', size_level = ''3'' \<rparr>]"
      and earlier = "[\<lparr> price = ''99'', size_level = ''0'' \<rparr>, \<lparr> price = ''97'', size_level = ''4'' \<rparr>,
           \<lparr> price = ''100'', size_level = ''5'' \<rparr>]"
      and later = "[]"
      and l = "\<lparr> price = ''98'', size_level = ''3'' \<rparr>"
      and us = "[]"]
  show ?thesis by simp
qed
section \<open>Properties of the order handler\<close>

lemma map_of_applyOrder:
  "map_of (applyOrder m ord) k =
     (if orderKey ord = [] \<or> k \<noteq> orderKey ord then map_of m k
      else if toLowerCase (case status ord of Some s \<Rightarrow> s | None \<Rightarrow> []) \<in> terminalStatuses then None
      else Some ord)"
  by (simp add: applyOrder_def Let_def map_of_mapSet map_of_mapDelete)

lemma foldl_applyOrder_other_keys:
  "\<forall>o'\<in>set later. orderKey o' \<noteq> k \<Longrightarrow> map_of (foldl applyOrder m later) k = map_of m k"
  by (induction later arbitrary: m) (auto simp: map_of_applyOrder)

lemma terminal_last_absent:
  assumes key: "orderKey ord \<noteq> []"
    and fin: "toLowerCase (case status ord of Some s \<Rightarrow> s | None \<Rightarrow> []) \<in> terminalStatuses"
    and last: "\<forall>o'\<in>set later. orderKey o' \<noteq> orderKey ord"
  shows "map_of (foldl applyOrder m (earlier @ ord # later)) (orderKey ord) = None"
  using key fin by (simp add: foldl_applyOrder_other_keys [OF last] map_of_applyOrder)

text \<open>
  The part of claim C2 that the code keeps. When the last update that a message carries for
  an order key has one of the statuses filled, canceled, cancelled or expired (in any
  letter case), the key is absent from the live-order map after the message, whatever
  updates for that key came before it.
\<close>

theorem terminal_update_removes_order:
  assumes "allOrdersOf ordersObject = earlier @ ord # later"
    and "orderKey ord \<noteq> []"
    and "toLowerCase (case status ord of Some s \<Rightarrow> s | None \<Rightarrow> []) \<in> terminalStatuses"
    and "\<forall>o'\<in>set later. orderKey o' \<noteq> orderKey ord"
  shows "orderKey ord \<notin> fst ` set (orderMap (handleAccountOrders ordersObject st))"
proof -
  have "map_of (orderMap (handleAccountOrders ordersObject st)) (orderKey ord) = None"
    using terminal_last_absent [OF assms(2,3,4), of "orderMap st" earlier] assms(1)
    by (simp add: handleAccountOrders_def Let_def)
  then show ?thesis by (simp add: map_of_eq_None_iff)
qed

theorem terminal_update_removes_order_witness:
  "allOrdersOf (Some [Some [exampleOpenOrder], None, Some [exampleCanceledOrder]])
     = [exampleOpenOrder] @ exampleCanceledOrder # []
   \<and> orderKey exampleCanceledOrder = ''1''
   \<and> toLowerCase (case status exampleCanceledOrder of Some s \<Rightarrow> s | None \<Rightarrow> []) = ''canceled''
   \<and> ''1'' \<notin> fst ` set (orderMap (handleAccountOrders
         (Some [Some [exampleOpenOrder], None, Some [exampleCanceledOrder]])
         (handleAccountOrders (Some [Some [exampleOpenOrder]]) initialOrdersState)))"
proof -
  have a: "allOrdersOf (Some [Some [exampleOpenOrder], None, Some [exampleCanceledOrder]])
     = [exampleOpenOrder] @ exampleCanceledOrder # []"
    by (simp add: allOrdersOf_def)
  have k: "orderKey exampleCanceledOrder = ''1''"
    by (simp add: orderKey_def exampleCanceledOrder_def)
  have s: "toLowerCase (case status exampleCanceledOrder of Some s \<Rightarrow> s | None \<Rightarrow> []) = ''canceled''"
    by (simp add: toLowerCase_def lowerChar_def exampleCanceledOrder_def)
  have t: "''canceled'' \<in> terminalStatuses" by (simp add: terminalStatuses_def)
  from terminal_update_removes_order [OF a, of "handleAccountOrders (Some [Some [exampleOpenOrder]]) initialOrdersState"]
    a k s t show ?thesis by simp
qed

text \<open>
  Claim C2 at the status rejected. An open order with identifier 1 arrives, then the
  update that rejects it, which is the most recent update for that order: the order stays
  in the live-order map and in the emitted list. The set of terminal statuses of
  \<open>handleAccountOrders\<close> has no entry for rejected.
\<close>

theorem C2_rejected_order_retained:
  "orderMap (handleAccountOrders (Some [Some [exampleRejectedOrder]])
      (handleAccountOrders (Some [Some [exampleOpenOrder]]) initialOrdersState))
     = [(''1'', exampleRejectedOrder)]
   \<and> orders (handleAccountOrders (Some [Some [exampleRejectedOrder]])
      (handleAccountOrders (Some [Some [exampleOpenOrder]]) initialOrdersState))
     = [exampleRejectedOrder]"
  by (simp add: handleAccountOrders_def allOrdersOf_def applyOrder_def orderKey_def
        toLowerCase_def lowerChar_def terminalStatuses_def initialOrdersState_def mapValues_def
        exampleOpenOrder_def exampleRejectedOrder_def Let_def)

section \<open>Properties of the account handlers\<close>

lemma zero_shouldRemove: "zeroSignedSize p \<Longrightarrow> shouldRemove p"
  by (auto simp: zeroSignedSize_def shouldRemove_def isZero_def absLess_def POSITION_EPSILON_def
        split: jsnumber.splits)

lemma values_mapSet: "snd ` set (mapSet k v m) \<subseteq> insert v (snd ` set m)"
  using set_mapSet [of k v m] by force

lemma values_mapDelete: "snd ` set (mapDelete k m) \<subseteq> snd ` set m"
  using set_mapDelete [of k m] by force

lemma values_indexPositions:
  "snd ` set (indexPositions m ps) \<subseteq> snd ` set m \<union> set ps"
  unfolding indexPositions_def
proof (induction ps arbitrary: m)
  case Nil
  show ?case by simp
next
  case (Cons p ps)
  show ?case
  proof (cases "pos_market_id p")
    case (Finite mid)
    have "snd ` set (foldl (\<lambda>m p. case pos_market_id p of Finite mid \<Rightarrow> mapSet mid p m | _ \<Rightarrow> m)
                       (mapSet mid p m) ps)
            \<subseteq> snd ` set (mapSet mid p m) \<union> set ps"
      by (rule Cons.IH)
    also have "\<dots> \<subseteq> insert p (snd ` set m) \<union> set ps"
      using values_mapSet [of mid p m] by blast
    finally show ?thesis using Finite by auto
  qed (use Cons.IH [of m] in auto)
qed

lemma values_mergePositions:
  "snd ` set (mergePositions m ps) \<subseteq> snd ` set m \<union> {p \<in> set ps. \<not> shouldRemove p}"
  unfolding mergePositions_def
proof (induction ps arbitrary: m)
  case Nil
  show ?case by simp
next
  case (Cons p ps)
  let ?f = "\<lambda>m p. case pos_market_id p of
                     Finite mid \<Rightarrow> (if shouldRemove p then mapDelete mid m else mapSet mid p m)
                   | _ \<Rightarrow> m"
  show ?case
  proof (cases "pos_market_id p")
    case (Finite mid)
    show ?thesis
    proof (cases "shouldRemove p")
      case True
      have "snd ` set (foldl ?f (mapDelete mid m) ps)
              \<subseteq> snd ` set (mapDelete mid m) \<union> {p \<in> set ps. \<not> shouldRemove p}"
        by (rule Cons.IH)
      also have "\<dots> \<subseteq> snd ` set m \<union> {p \<in> set ps. \<not> shouldRemove p}"
        using values_mapDelete [of mid m] by blast
      finally show ?thesis using Finite True by auto
    next
      case False
      have "snd ` set (foldl ?f (mapSet mid p m) ps)
              \<subseteq> snd ` set (mapSet mid p m) \<union> {p \<in> set ps. \<not> shouldRemove p}"
        by (rule Cons.IH)
      also have "\<dots> \<subseteq> insert p (snd ` set m) \<union> {p \<in> set ps. \<not> shouldRemove p}"
        using values_mapSet [of mid p m] by blast
      finally show ?thesis using Finite False by auto
    qed
  qed (use Cons.IH [of m] in auto)
qed

lemma keyed_mapSet: "keyed m \<Longrightarrow> pos_market_id p = Finite k \<Longrightarrow> keyed (mapSet k p m)"
  using set_mapSet [of k p m] by (auto simp: keyed_def)

lemma keyed_mapDelete: "keyed m \<Longrightarrow> keyed (mapDelete k m)"
  by (auto simp: keyed_def mapDelete_def)

lemma keyed_indexPositions: "keyed m \<Longrightarrow> keyed (indexPositions m ps)"
  unfolding indexPositions_def
  by (induction ps arbitrary: m) (auto simp: keyed_mapSet split: jsnumber.splits)

lemma keyed_mergePositions: "keyed m \<Longrightarrow> keyed (mergePositions m ps)"
  unfolding mergePositions_def
  by (induction ps arbitrary: m) (auto simp: keyed_mapSet keyed_mapDelete split: jsnumber.splits)

lemma mergePositions_other_markets:
  "\<forall>q\<in>set ps. pos_market_id q \<noteq> Finite mid \<Longrightarrow>
     map_of (mergePositions m ps) mid = map_of m mid"
  unfolding mergePositions_def
  by (induction ps arbitrary: m) (auto simp: map_of_mapSet map_of_mapDelete split: jsnumber.splits)

lemma mergePositions_append:
  "mergePositions m (xs @ ys) = mergePositions (mergePositions m xs) ys"
  by (simp add: mergePositions_def)

lemma mergePositions_last:
  assumes "pos_market_id p = Finite mid" "\<forall>q\<in>set after. pos_market_id q \<noteq> Finite mid"
  shows "map_of (mergePositions m (before @ p # after)) mid
           = (if shouldRemove p then None else Some p)"
proof -
  have "mergePositions m (before @ p # after)
          = mergePositions (mergePositions (mergePositions m before) [p]) after"
    using mergePositions_append [of m before "p # after"]
      mergePositions_append [of "mergePositions m before" "[p]" after] by simp
  then show ?thesis
    using assms(1) mergePositions_other_markets [OF assms(2)]
    by (simp add: mergePositions_def map_of_mapSet map_of_mapDelete)
qed

lemma distinct_indexPositions: "distinct (map fst m) \<Longrightarrow> distinct (map fst (indexPositions m ps))"
  unfolding indexPositions_def
  by (induction ps arbitrary: m) (auto simp: distinct_mapSet split: jsnumber.splits)

lemma distinct_mergePositions: "distinct (map fst m) \<Longrightarrow> distinct (map fst (mergePositions m ps))"
  unfolding mergePositions_def
  by (induction ps arbitrary: m)
    (auto simp: distinct_mapSet distinct_mapDelete split: jsnumber.splits)

lemma positions_emitAccount: "positions (emitAccount st) = positions st"
  by (simp add: emitAccount_def)

lemma handleAccountAll_removes:
  assumes "pos_market_id p = Finite mid" "shouldRemove p"
    and "\<forall>q\<in>set after. pos_market_id q \<noteq> Finite mid"
  shows "\<forall>q\<in>set (positions (handleAccountAll (Some (before @ p # after)) st)).
           pos_market_id q \<noteq> Finite mid"
proof
  fix q assume q: "q \<in> set (positions (handleAccountAll (Some (before @ p # after)) st))"
  let ?m = "mergePositions (indexPositions [] (positions st)) (before @ p # after)"
  from q obtain k where kq: "(k, q) \<in> set ?m"
    by (auto simp: handleAccountAll_def positions_emitAccount mapValues_def)
  have "keyed ?m"
    by (intro keyed_mergePositions keyed_indexPositions) (simp add: keyed_def)
  with kq have mk: "pos_market_id q = Finite k" by (auto simp: keyed_def)
  have "map_of ?m mid = None"
    using mergePositions_last [OF assms(1,3)] assms(2) by simp
  then have "mid \<notin> fst ` set ?m" by (simp add: map_of_eq_None_iff)
  with kq have "k \<noteq> mid" by force
  with mk show "pos_market_id q \<noteq> Finite mid" by simp
qed

lemma handleAccountAll_stores:
  assumes "pos_market_id p = Finite mid" "\<not> shouldRemove p"
    and "\<forall>q\<in>set after. pos_market_id q \<noteq> Finite mid"
  shows "p \<in> set (positions (handleAccountAll (Some (before @ p # after)) st))"
proof -
  let ?m = "mergePositions (indexPositions [] (positions st)) (before @ p # after)"
  have "map_of ?m mid = Some p"
    using mergePositions_last [OF assms(1,3)] assms(2) by simp
  then have "(mid, p) \<in> set ?m" by (rule map_of_SomeD)
  then have "p \<in> snd ` set ?m" by force
  then show ?thesis
    by (simp add: handleAccountAll_def positions_emitAccount mapValues_def)
qed

lemma handleAccountMarket_removes:
  assumes "pos_market_id p = Finite mid" "shouldRemove p"
  shows "\<forall>q\<in>set (positions (handleAccountMarket (Some p) st)). pos_market_id q \<noteq> Finite mid"
  using assms by (simp add: handleAccountMarket_def positions_emitAccount)

lemma handleAccountMarket_stores:
  assumes "pos_market_id p = Finite mid" "\<not> shouldRemove p"
  shows "p \<in> set (positions (handleAccountMarket (Some p) st))"
  using assms
  by (auto simp: handleAccountMarket_def positions_emitAccount Let_def list_ex_iff image_iff)

lemma noneRemovable_all: "noneRemovable st \<Longrightarrow> noneRemovable (handleAccountAll incoming st)"
proof (cases incoming)
  case None
  assume "noneRemovable st"
  with None show ?thesis by (simp add: handleAccountAll_def noneRemovable_def positions_emitAccount)
next
  case (Some ps)
  assume inv: "noneRemovable st"
  have "snd ` set (mergePositions (indexPositions [] (positions st)) ps)
          \<subseteq> set (positions st) \<union> {p \<in> set ps. \<not> shouldRemove p}"
    using values_mergePositions [of "indexPositions [] (positions st)" ps]
      values_indexPositions [of "[]" "positions st"] by auto
  with inv Some show ?thesis
    by (auto simp: handleAccountAll_def noneRemovable_def positions_emitAccount mapValues_def)
qed

lemma noneRemovable_market: "noneRemovable st \<Longrightarrow> noneRemovable (handleAccountMarket incoming st)"
  by (auto simp: handleAccountMarket_def noneRemovable_def positions_emitAccount Let_def
        split: option.splits jsnumber.splits if_splits)

lemma noneRemovable_run: "noneRemovable st \<Longrightarrow> noneRemovable (runAccount events st)"
  unfolding runAccount_def
proof (induction events arbitrary: st)
  case Nil
  then show ?case by simp
next
  case (Cons e events)
  have "noneRemovable (handleAccountEvent e st)"
    using Cons.prems by (cases e) (simp_all add: noneRemovable_all noneRemovable_market)
  from Cons.IH [OF this] show ?case by simp
qed

text \<open>
  Claim C7 as stated fails at its middle part. The handlers remove a position when its
  sign is 0 or its size is below \<^verbatim>\<open>1e-12\<close> in absolute value, so an update with sign 1
  and size \<open>2^-40\<close>, which is not zero, is treated as a removal: after the position of
  market 1 has been closed, that update does not re-add it, through either handler.
\<close>

theorem C7_counterexample:
  "\<not> zeroSignedSize exampleTinyPosition
   \<and> positions (handleAccountMarket (Some examplePosition) initialAccountState) = [examplePosition]
   \<and> positions (handleAccountMarket (Some exampleClosedPosition)
         (handleAccountMarket (Some examplePosition) initialAccountState)) = []
   \<and> positions (handleAccountMarket (Some exampleTinyPosition)
         (handleAccountMarket (Some exampleClosedPosition)
           (handleAccountMarket (Some examplePosition) initialAccountState))) = []
   \<and> positions (handleAccountAll (Some [exampleTinyPosition])
         (handleAccountMarket (Some exampleClosedPosition)
           (handleAccountMarket (Some examplePosition) initialAccountState))) = []"
  by (simp add: zeroSignedSize_def isZero_def handleAccountMarket_def handleAccountAll_def
        shouldRemove_def absLess_def POSITION_EPSILON_def emitAccount_def initialAccountState_def
        indexPositions_def mergePositions_def mapValues_def mapDelete_def
        examplePosition_def exampleClosedPosition_def exampleTinyPosition_def)

text \<open>
  Claim C7, amended. For both handlers, an update of a market that the handlers' test
  marks for removal (its sign is 0, or its size is below \<^verbatim>\<open>1e-12\<close> in absolute value)
  leaves no position of that market in the set; for the account-wide handler the update
  meant is the last one the message carries for that market. Every update whose signed
  size is zero (its sign or its size is 0) is such an update, and so is an update with a
  size that is not zero and lies below \<^verbatim>\<open>1e-12\<close>. An update whose sign is not 0 and
  whose size is not below \<^verbatim>\<open>1e-12\<close> in absolute value is in the set afterwards, so it
  re-adds a removed position. After every sequence of account deltas, starting from the
  empty position set, no stored position has zero signed size, and none is one that the
  handlers would remove.
\<close>

theorem C7_zero_positions_removed:
  "(zeroSignedSize p \<longrightarrow> shouldRemove p)
   \<and> (shouldRemove p \<longleftrightarrow> isZero (pos_sign p) \<or> absLess (pos_position p) POSITION_EPSILON)
   \<and> (pos_market_id p = Finite mid \<and> shouldRemove p \<and> (\<forall>q\<in>set after. pos_market_id q \<noteq> Finite mid)
      \<longrightarrow> (\<forall>q\<in>set (positions (handleAccountMarket (Some p) st)). pos_market_id q \<noteq> Finite mid)
        \<and> (\<forall>q\<in>set (positions (handleAccountAll (Some (before @ p # after)) st)).
              pos_market_id q \<noteq> Finite mid))
   \<and> (pos_market_id p = Finite mid \<and> \<not> shouldRemove p
        \<and> (\<forall>q\<in>set after. pos_market_id q \<noteq> Finite mid)
      \<longrightarrow> p \<in> set (positions (handleAccountMarket (Some p) st))
        \<and> p \<in> set (positions (handleAccountAll (Some (before @ p # after)) st)))
   \<and> (\<forall>q\<in>set (positions (runAccount events initialAccountState)).
        \<not> zeroSignedSize q \<and> \<not> shouldRemove q)"
proof (intro conjI impI)
  assume "zeroSignedSize p"
  then show "shouldRemove p" by (rule zero_shouldRemove)
next
  show "shouldRemove p \<longleftrightarrow> isZero (pos_sign p) \<or> absLess (pos_position p) POSITION_EPSILON"
    by (simp add: shouldRemove_def)
next
  assume a: "pos_market_id p = Finite mid \<and> shouldRemove p
             \<and> (\<forall>q\<in>set after. pos_market_id q \<noteq> Finite mid)"
  from a show "\<forall>q\<in>set (positions (handleAccountMarket (Some p) st)). pos_market_id q \<noteq> Finite mid"
    by (intro handleAccountMarket_removes) simp_all
  from a show "\<forall>q\<in>set (positions (handleAccountAll (Some (before @ p # after)) st)).
              pos_market_id q \<noteq> Finite mid"
    by (intro handleAccountAll_removes) simp_all
next
  assume a: "pos_market_id p = Finite mid \<and> \<not> shouldRemove p
             \<and> (\<forall>q\<in>set after. pos_market_id q \<noteq> Finite mid)"
  then show "p \<in> set (positions (handleAccountMarket (Some p) st))"
    by (intro handleAccountMarket_stores [of p mid]) simp_all
  from a show "p \<in> set (positions (handleAccountAll (Some (before @ p # after)) st))"
    by (intro handleAccountAll_stores [of p mid]) simp_all
next
  have "noneRemovable initialAccountState"
    by (simp add: noneRemovable_def initialAccountState_def)
  then have "noneRemovable (runAccount events initialAccountState)"
    by (rule noneRemovable_run)
  then show "\<forall>q\<in>set (positions (runAccount events initialAccountState)).
        \<not> zeroSignedSize q \<and> \<not> shouldRemove q"
    using zero_shouldRemove by (auto simp: noneRemovable_def)
qed

text \<open>
  On a set that holds positions on markets 1 and 2: the closing update for market 1 and
  the update of size \<open>2^-40\<close> each leave the position on market 2 alone and none on
  market 1, through either handler; the update of size 2 is stored again after the
  position has been closed.
\<close>

theorem C7_zero_positions_removed_witness:
  "pos_market_id exampleClosedPosition = Finite 1 \<and> zeroSignedSize exampleClosedPosition
   \<and> shouldRemove exampleClosedPosition
   \<and> pos_market_id exampleTinyPosition = Finite 1 \<and> \<not> zeroSignedSize exampleTinyPosition
   \<and> shouldRemove exampleTinyPosition
   \<and> Finite 1 \<notin> pos_market_id `
         set (positions (handleAccountMarket (Some exampleClosedPosition) exampleAccountState))
   \<and> Finite 1 \<notin> pos_market_id `
         set (positions (handleAccountMarket (Some exampleTinyPosition) exampleAccountState))
   \<and> Finite 1 \<notin> pos_market_id `
         set (positions (handleAccountAll (Some ([examplePosition] @ exampleTinyPosition # []))
                exampleAccountState))
   \<and> positions (handleAccountMarket (Some exampleClosedPosition) exampleAccountState)
       = [exampleOtherPosition]
   \<and> positions (handleAccountMarket (Some exampleTinyPosition) exampleAccountState)
       = [exampleOtherPosition]
   \<and> positions (handleAccountAll (Some ([examplePosition] @ exampleTinyPosition # []))
         exampleAccountState) = [exampleOtherPosition]
   \<and> pos_market_id examplePosition = Finite 1 \<and> \<not> shouldRemove examplePosition
   \<and> examplePosition \<in> set (positions (handleAccountMarket (Some examplePosition)
         (handleAccountMarket (Some exampleClosedPosition) exampleAccountState)))
   \<and> examplePosition \<in> set (positions (handleAccountAll (Some ([] @ examplePosition # []))
         (handleAccountMarket (Some exampleClosedPosition) exampleAccountState)))
   \<and> positions (runAccount [AccountMarket (Some examplePosition), AccountAll (Some [exampleTinyPosition])]
         initialAccountState) = []"
proof -
  have c: "pos_market_id exampleClosedPosition = Finite 1" "zeroSignedSize exampleClosedPosition"
      "shouldRemove exampleClosedPosition"
    by code_simp+
  have t: "pos_market_id exampleTinyPosition = Finite 1" "\<not> zeroSignedSize exampleTinyPosition"
      "shouldRemove exampleTinyPosition"
    by code_simp+
  have e: "pos_market_id examplePosition = Finite 1" "\<not> shouldRemove examplePosition"
    by code_simp+
  have r: "positions (runAccount [AccountMarket (Some examplePosition), AccountAll (Some [exampleTinyPosition])]
         initialAccountState) = []"
    by code_simp
  have v: "positions (handleAccountMarket (Some exampleClosedPosition) exampleAccountState)
       = [exampleOtherPosition]"
    "positions (handleAccountMarket (Some exampleTinyPosition) exampleAccountState)
       = [exampleOtherPosition]"
    "positions (handleAccountAll (Some ([examplePosition] @ exampleTinyPosition # []))
         exampleAccountState) = [exampleOtherPosition]"
    by code_simp+
  have hc: "pos_market_id exampleClosedPosition = Finite 1 \<and> shouldRemove exampleClosedPosition
        \<and> (\<forall>q\<in>set []. pos_market_id q \<noteq> Finite 1)"
    and ht: "pos_market_id exampleTinyPosition = Finite 1 \<and> shouldRemove exampleTinyPosition
        \<and> (\<forall>q\<in>set []. pos_market_id q \<noteq> Finite 1)"
    and he: "pos_market_id examplePosition = Finite 1 \<and> \<not> shouldRemove examplePosition
        \<and> (\<forall>q\<in>set []. pos_market_id q \<noteq> Finite 1)"
    using c t e by simp_all
  note removed = C7_zero_positions_removed
    [THEN conjunct2, THEN conjunct2, THEN conjunct1, THEN mp]
  note stored = C7_zero_positions_removed
    [THEN conjunct2, THEN conjunct2, THEN conjunct2, THEN conjunct1, THEN mp]
  have rc: "Finite 1 \<notin> pos_market_id `
         set (positions (handleAccountMarket (Some exampleClosedPosition) exampleAccountState))"
    using removed [of exampleClosedPosition 1 "[]" exampleAccountState "[]", OF hc]
    by (auto simp: image_iff)
  have rt: "Finite 1 \<notin> pos_market_id `
         set (positions (handleAccountMarket (Some exampleTinyPosition) exampleAccountState))
     \<and> Finite 1 \<notin> pos_market_id `
         set (positions (handleAccountAll (Some ([examplePosition] @ exampleTinyPosition # []))
                exampleAccountState))"
    using removed [of exampleTinyPosition 1 "[]" exampleAccountState "[examplePosition]", OF ht]
    by (auto simp: image_iff)
  have s: "examplePosition \<in> set (positions (handleAccountMarket (Some examplePosition)
         (handleAccountMarket (Some exampleClosedPosition) exampleAccountState)))
   \<and> examplePosition \<in> set (positions (handleAccountAll (Some ([] @ examplePosition # []))
         (handleAccountMarket (Some exampleClosedPosition) exampleAccountState)))"
    using stored [of examplePosition 1 "[]"
      "handleAccountMarket (Some exampleClosedPosition) exampleAccountState" "[]", OF he]
    by simp
  show ?thesis
    by (intro conjI c t e r v rc rt [THEN conjunct1] rt [THEN conjunct2]
          s [THEN conjunct1] s [THEN conjunct2])
qed
section \<open>Properties of the signed submissions\<close>




section \<open>Properties of the scaled-decimal arithmetic\<close>

declare digitsOf.simps [simp del]















lemma canonicalDigits_zero_append: "canonicalDigits (''0'' @ f) = canonicalDigits f"
  by (simp add: canonicalDigits_def)




















lemma stripTrailingZeros_digits: "list_all isDigit f \<Longrightarrow> list_all isDigit (stripTrailingZeros f)"
proof -
  assume "list_all isDigit f"
  moreover have "set (stripTrailingZeros f) \<subseteq> set f"
    unfolding stripTrailingZeros_def using set_dropWhileD [of _ "\<lambda>c. c = CHR ''0''" "rev f"] by auto
  ultimately show ?thesis by (auto simp: list_all_iff)
qed






















subsection \<open>The minimum step\<close>

lemma tiny_number_rendering:
  "scaleQuantityWithMinimum num (NumberValue ''1e-7'') 4 = Inl (InvalidDecimalFormat ''1e-7'')"
  by code_simp

lemma scenario_A:
  "decimalToScaled (StringValue ''0.00001'') 4 = Inr 0"
  "scaleQuantityWithMinimum decimalNumber (StringValue ''0.00001'') 4 = Inr 1"
  "scaledToDecimalString (ScaledBigInt 1) 4 = Inr ''0.0001''"
  by code_simp+

text \<open>
  Claim C4 fails in the code. The examples of the claim hold: \<open>0.00001\<close> scaled to 4
  decimals is 0 and \<open>scaleQuantityWithMinimum\<close> raises it to 1. But the number
  \<open>0.0000001\<close>, which is not zero, makes \<open>scaleQuantityWithMinimum\<close> throw for every
  conversion \<open>num\<close>: its \<^verbatim>\<open>toString()\<close> is \<open>1e-7\<close>, which the format test of
  \<open>normalizeDecimalInput\<close> rejects, so \<open>decimalToScaled\<close> throws before the minimum
  step is considered.
\<close>

theorem C4_tiny_number_throws:
  "decimalToScaled (StringValue ''0.00001'') 4 = Inr 0
   \<and> scaleQuantityWithMinimum decimalNumber (StringValue ''0.00001'') 4 = Inr 1
   \<and> scaleQuantityWithMinimum num (NumberValue ''1e-7'') 4 = Inl (InvalidDecimalFormat ''1e-7'')"
  using scenario_A tiny_number_rendering by simp

text \<open>
  The four cases of \<^verbatim>\<open>tests/lighter/decimal.test.ts\<close>: the numbers \<open>0.00001\<close> and
  \<open>-0.00001\<close> at 4 decimals are raised to one step, rendered \<open>0.0001\<close> and
  \<open>-0.0001\<close>; zero stays zero; \<open>0.0002\<close> is scaled as \<open>decimalToScaled\<close> scales it.
\<close>

theorem decimal_tests_pass:
  "scaleQuantityWithMinimum num (NumberValue ''0.00001'') 4 = Inr 1
   \<and> scaledToDecimalString (ScaledBigInt 1) 4 = Inr ''0.0001''
   \<and> scaleQuantityWithMinimum num (NumberValue ''-0.00001'') 4 = Inr (- 1)
   \<and> scaledToDecimalString (ScaledBigInt (- 1)) 4 = Inr ''-0.0001''
   \<and> scaleQuantityWithMinimum num (NumberValue ''0'') 4 = Inr 0
   \<and> scaleQuantityWithMinimum num (NumberValue ''0.0002'') 4
       = decimalToScaled (NumberValue ''0.0002'') 4"
  by code_simp
end
